theory Spec2Isabelle
  imports Complex_Main "HOL-Library.AList"
begin

section \<open>Settlement-time estimation: data model\<close>

text \<open>
  Numbers. The JSON numbers of the dataset and the Python floats computed from them are
  modelled as exact rationals (every finite binary64 value is a rational); the rounding
  that IEEE arithmetic applies after each operation, infinities and NaN are not modelled.
  A stored statistic is a JSON value, which need not be a number.
\<close>

datatype jval = Num rat | Str string | Null

text \<open>The exceptions the modelled functions can raise.\<close>

datatype error = TypeError | KeyError | StatisticsError | ZeroDivisionError

text \<open>
  A Python \<open>dict\<close> with string keys keeps insertion order: an association list whose
  keys are distinct. \<open>k in d\<close> is \<open>map_of d k \<noteq> None\<close>, \<open>d[k]\<close> is \<open>map_of d k\<close> (KeyError
  on \<open>None\<close>), \<open>d[k] = v\<close> is \<open>AList.update k v d\<close> (in place for a present key, appended
  for a new one), \<open>d.keys()\<close> is \<open>map fst d\<close>.
\<close>

type_synonym 'v dict = "(string \<times> 'v) list"

text \<open>
  One bin (\<open>BinStats\<close>). The converter writes the three percentiles and \<open>sample_size\<close>;
  the keys \<open>generated\<close> and \<open>method\<close> (field \<open>method_name\<close>) exist only on
  bins written by the gap filler.
\<close>

record bin =
  p25 :: jval
  p50 :: jval
  p75 :: jval
  sample_size :: int
  generated :: "bool option"
  method_name :: "string option"

type_synonym bins = "bin dict"

type_synonym dataset = "bins dict dict dict"

section \<open>Bucket catalog\<close>

text \<open>\<open>EXPECTED_BINS\<close> of \<open>run/003_generate_missing_bins_improved.py\<close>.\<close>

definition EXPECTED_BINS :: "string list" where
  "EXPECTED_BINS = [''0-50000'', ''50000-100000'', ''100000-300000'', ''300000-400000'',
     ''400000-500000'', ''500000-700000'', ''700000-1000000'', ''1000000+'']"

text \<open>
  \<open>find_amount_bucket\<close> of \<open>tests/lookup_settlement_times.py\<close>: a chain of \<open>\<le>\<close>
  comparisons, no check of the sign and no \<open>raise\<close>, so the model is a total function
  to bucket names.
\<close>

definition find_amount_bucket :: "rat \<Rightarrow> string" where
  "find_amount_bucket usd_amount =
     (if usd_amount \<le> 50000 then ''0-50000''
      else if usd_amount \<le> 100000 then ''50000-100000''
      else if usd_amount \<le> 300000 then ''100000-300000''
      else if usd_amount \<le> 400000 then ''300000-400000''
      else if usd_amount \<le> 500000 then ''400000-500000''
      else if usd_amount \<le> 700000 then ''500000-700000''
      else if usd_amount \<le> 1000000 then ''700000-1000000''
      else ''1000000+'')"

section \<open>Gap filler (\<open>run/003_generate_missing_bins_improved.py\<close>)\<close>

text \<open>
  \<open>find_missing_bins\<close>: the three nested \<open>for\<close> loops append one tuple per route whose
  list of missing bins is not empty, in iteration order.
\<close>

definition find_missing_bins :: "dataset \<Rightarrow> (string \<times> string \<times> string \<times> string list) list" where
  "find_missing_bins data =
     concat (map (\<lambda>(origin_chain_id, destinations).
       concat (map (\<lambda>(destination_chain_id, tickerhashes).
         concat (map (\<lambda>(tickerhash, bins).
           (let existing_bins = set (map fst bins);
                missing_bins = filter (\<lambda>bin_name. bin_name \<notin> existing_bins) EXPECTED_BINS
            in if missing_bins \<noteq> []
               then [(origin_chain_id, destination_chain_id, tickerhash, missing_bins)]
               else []))
         tickerhashes))
       destinations))
     data)"

text \<open>
  The global statistics table: per bin name the lists \<open>"p25"\<close>, \<open>"p50"\<close>, \<open>"p75"\<close>.
  \<open>append_stats\<close> is the body of the innermost loop of \<open>collect_bin_statistics\<close>; a
  \<open>defaultdict\<close> creates the three empty lists on first access.
\<close>

record metric_lists =
  ml_p25 :: "jval list"
  ml_p50 :: "jval list"
  ml_p75 :: "jval list"

type_synonym bin_stats = "metric_lists dict"

definition append_stats :: "string \<Rightarrow> bin \<Rightarrow> bin_stats \<Rightarrow> bin_stats" where
  "append_stats bin_name bin_data bin_stats =
     (if bin_name \<in> set EXPECTED_BINS then
        (let cur = (case map_of bin_stats bin_name of
                      None \<Rightarrow> \<lparr>ml_p25 = [], ml_p50 = [], ml_p75 = []\<rparr>
                    | Some m \<Rightarrow> m)
         in AList.update bin_name
              \<lparr>ml_p25 = ml_p25 cur @ [p25 bin_data],
               ml_p50 = ml_p50 cur @ [p50 bin_data],
               ml_p75 = ml_p75 cur @ [p75 bin_data]\<rparr> bin_stats)
      else bin_stats)"

definition collect_bin_statistics :: "dataset \<Rightarrow> bin_stats" where
  "collect_bin_statistics data =
     fold (\<lambda>(origin_chain_id, destinations).
       fold (\<lambda>(destination_chain_id, tickerhashes).
         fold (\<lambda>(tickerhash, bins).
           fold (\<lambda>(bin_name, bin_data). append_stats bin_name bin_data) bins)
         tickerhashes)
       destinations)
     data []"

text \<open>\<open>get_bin_index\<close>: \<open>EXPECTED_BINS.index\<close>, with \<open>-1\<close> for \<open>ValueError\<close>.\<close>

fun list_index :: "string list \<Rightarrow> string \<Rightarrow> nat option" where
  "list_index [] x = None"
| "list_index (y # ys) x = (if y = x then Some 0 else map_option Suc (list_index ys x))"

definition get_bin_index :: "string \<Rightarrow> int" where
  "get_bin_index bin_name =
     (case list_index EXPECTED_BINS bin_name of Some i \<Rightarrow> int i | None \<Rightarrow> - 1)"

text \<open>
  Arithmetic on stored values. \<open>to_number\<close> is the operand check of \<open>v * 1.2\<close>: a string
  or \<open>None\<close> times a float raises TypeError. \<open>mean\<close> is \<open>statistics.mean\<close>:
  StatisticsError on an empty list, TypeError on a value that is not a number.
  \<open>round2 x\<close> is \<open>round(x, 2)\<close>, which rounds half to even.
\<close>

fun to_number :: "jval \<Rightarrow> error + rat" where
  "to_number (Num x) = Inr x"
| "to_number (Str s) = Inl TypeError"
| "to_number Null = Inl TypeError"

fun numbers :: "jval list \<Rightarrow> error + rat list" where
  "numbers [] = Inr []"
| "numbers (v # vs) =
     (case to_number v of
        Inl e \<Rightarrow> Inl e
      | Inr x \<Rightarrow> (case numbers vs of Inl e \<Rightarrow> Inl e | Inr xs \<Rightarrow> Inr (x # xs)))"

definition mean :: "jval list \<Rightarrow> error + rat" where
  "mean vs =
     (if vs = [] then Inl StatisticsError
      else case numbers vs of
             Inl e \<Rightarrow> Inl e
           | Inr xs \<Rightarrow> Inr (sum_list xs / of_nat (length xs)))"

definition round2 :: "rat \<Rightarrow> rat" where
  "round2 x =
     (let y = x * 100; f = \<lfloor>y\<rfloor>; d = y - of_int f
      in of_int (if d < 1 / 2 then f else if 1 / 2 < d then f + 1
                 else if even f then f else f + 1) / 100)"

text \<open>Lines 97-114: the multiplier of the target bin.\<close>

definition base_multiplier :: "string \<Rightarrow> rat" where
  "base_multiplier target_bin =
     (if target_bin = ''50000-100000'' then 12 / 10
      else if target_bin = ''100000-300000'' then 15 / 10
      else if target_bin = ''300000-400000'' then 18 / 10
      else if target_bin = ''400000-500000'' then 2
      else if target_bin = ''500000-700000'' then 25 / 10
      else if target_bin = ''700000-1000000'' then 3
      else if target_bin = ''1000000+'' then 4
      else 1)"

text \<open>The dict literal the first two strategies return (lines 121-132 and 137-148).\<close>

definition scaled_bin :: "rat \<Rightarrow> rat \<Rightarrow> string \<Rightarrow> bin" where
  "scaled_bin baseline_p50 multiplier meth =
     (let estimated_p50 = baseline_p50 * multiplier;
          estimated_p25 = estimated_p50 * (7 / 10);
          estimated_p75 = estimated_p50 * (13 / 10)
      in \<lparr>p25 = Num (round2 estimated_p25), p50 = Num (round2 estimated_p50),
          p75 = Num (round2 estimated_p75), sample_size = 0,
          generated = Some True, method_name = Some meth\<rparr>)"

text \<open>Lines 151-169: the loop that builds \<open>surrounding_data\<close>.\<close>

record surrounding =
  weight :: rat
  s_p25 :: rat
  s_p50 :: rat
  s_p75 :: rat

fun surrounding_data :: "bin_stats \<Rightarrow> int \<Rightarrow> string list \<Rightarrow> error + surrounding list" where
  "surrounding_data bin_stats target_index [] = Inr []"
| "surrounding_data bin_stats target_index (bin_name # rest) =
     (case map_of bin_stats bin_name of
        None \<Rightarrow> surrounding_data bin_stats target_index rest
      | Some m \<Rightarrow>
          if ml_p25 m = [] then surrounding_data bin_stats target_index rest
          else let bin_index = get_bin_index bin_name in
            if bin_index = - 1 then surrounding_data bin_stats target_index rest
            else
              (let distance = \<bar>bin_index - target_index\<bar>;
                   w = 1 / (of_int distance + 1)
               in case mean (ml_p25 m) of Inl e \<Rightarrow> Inl e | Inr avg_p25 \<Rightarrow>
                  (case mean (ml_p50 m) of Inl e \<Rightarrow> Inl e | Inr avg_p50 \<Rightarrow>
                  (case mean (ml_p75 m) of Inl e \<Rightarrow> Inl e | Inr avg_p75 \<Rightarrow>
                  (case surrounding_data bin_stats target_index rest of
                     Inl e \<Rightarrow> Inl e
                   | Inr items \<Rightarrow>
                       Inr (\<lparr>weight = w, s_p25 = avg_p25, s_p50 = avg_p50, s_p75 = avg_p75\<rparr>
                            # items))))))"

text \<open>Lines 171-206: weighted interpolation, cross-combination average, default.\<close>

definition later_strategies :: "bin_stats \<Rightarrow> string \<Rightarrow> surrounding list \<Rightarrow> error + bin" where
  "later_strategies bin_stats target_bin items =
     (if items \<noteq> [] then
        (let total_weight = sum_list (map weight items) in
         if total_weight = 0 then Inl ZeroDivisionError
         else
           Inr \<lparr>p25 = Num (round2 (sum_list (map (\<lambda>i. weight i * s_p25 i) items) / total_weight)),
                p50 = Num (round2 (sum_list (map (\<lambda>i. weight i * s_p50 i) items) / total_weight)),
                p75 = Num (round2 (sum_list (map (\<lambda>i. weight i * s_p75 i) items) / total_weight)),
                sample_size = 0, generated = Some True,
                method_name = Some ''weighted_interpolation''\<rparr>)
      else
        (case map_of bin_stats target_bin of
           Some m \<Rightarrow>
             if ml_p25 m \<noteq> [] then
               (case mean (ml_p25 m) of Inl e \<Rightarrow> Inl e | Inr a25 \<Rightarrow>
               (case mean (ml_p50 m) of Inl e \<Rightarrow> Inl e | Inr a50 \<Rightarrow>
               (case mean (ml_p75 m) of Inl e \<Rightarrow> Inl e | Inr a75 \<Rightarrow>
                  Inr \<lparr>p25 = Num a25, p50 = Num a50, p75 = Num a75, sample_size = 0,
                       generated = Some True,
                       method_name = Some ''cross_combination_average''\<rparr>)))
             else
               Inr \<lparr>p25 = Num 10, p50 = Num 15, p75 = Num 25, sample_size = 0,
                    generated = Some True, method_name = Some ''default_fallback''\<rparr>
         | None \<Rightarrow>
             Inr \<lparr>p25 = Num 10, p50 = Num 15, p75 = Num 25, sample_size = 0,
                  generated = Some True, method_name = Some ''default_fallback''\<rparr>))"

text \<open>
  \<open>interpolate_bin_data\<close>. The parameter \<open>route_data\<close> defaults to \<open>None\<close>; the test
  \<open>route_data and baseline_bin in route_data\<close> holds exactly when \<open>route_data\<close> is a
  dict with the key \<open>"0-50000"\<close> (such a dict is not empty). Every \<open>return\<close> of the
  source ends the function, so the strategies nest as \<open>else\<close> branches.
\<close>

definition interpolate_bin_data ::
    "bin_stats \<Rightarrow> string \<Rightarrow> string list \<Rightarrow> bins option \<Rightarrow> error + bin" where
  "interpolate_bin_data bin_stats target_bin existing_bins route_data =
     (let target_index = get_bin_index target_bin;
          multiplier = base_multiplier target_bin;
          baseline_bin = ''0-50000''
      in case (case route_data of None \<Rightarrow> None | Some rd \<Rightarrow> map_of rd baseline_bin) of
           Some baseline \<Rightarrow>
             (case to_number (p50 baseline) of
                Inl e \<Rightarrow> Inl e
              | Inr baseline_p50 \<Rightarrow> Inr (scaled_bin baseline_p50 multiplier ''baseline_scaling''))
         | None \<Rightarrow>
             (case (case map_of bin_stats baseline_bin of
                      None \<Rightarrow> None
                    | Some m \<Rightarrow> if ml_p50 m \<noteq> [] then Some (ml_p50 m) else None) of
                Some vs \<Rightarrow>
                  (case mean vs of
                     Inl e \<Rightarrow> Inl e
                   | Inr baseline_p50 \<Rightarrow>
                       Inr (scaled_bin baseline_p50 multiplier ''baseline_scaling_global''))
              | None \<Rightarrow>
                  (case surrounding_data bin_stats target_index existing_bins of
                     Inl e \<Rightarrow> Inl e
                   | Inr items \<Rightarrow> later_strategies bin_stats target_bin items)))"

text \<open>
  \<open>populate_missing_bins\<close>. \<open>populated_data\<close> is a deep copy of \<open>data\<close> and is the
  state of both loops. \<open>get_route\<close> is the read \<open>populated_data[o][d][t]\<close>, \<open>set_bin\<close>
  the write \<open>populated_data[o][d][t][bin_name] = generated_data\<close>; both raise KeyError
  on an absent route. \<open>existing_bins\<close> is taken once per route, before its inner loop;
  \<open>route_data\<close> is read from \<open>populated_data\<close> in every iteration of the inner loop,
  after the writes of the earlier iterations.
\<close>

definition get_route :: "dataset \<Rightarrow> string \<Rightarrow> string \<Rightarrow> string \<Rightarrow> error + bins" where
  "get_route pd orig dest th =
     (case map_of pd orig of None \<Rightarrow> Inl KeyError | Some destinations \<Rightarrow>
     (case map_of destinations dest of None \<Rightarrow> Inl KeyError | Some tickerhashes \<Rightarrow>
     (case map_of tickerhashes th of None \<Rightarrow> Inl KeyError | Some route \<Rightarrow> Inr route)))"

definition set_bin ::
    "dataset \<Rightarrow> string \<Rightarrow> string \<Rightarrow> string \<Rightarrow> string \<Rightarrow> bin \<Rightarrow> error + dataset" where
  "set_bin pd orig dest th bin_name generated_data =
     (case map_of pd orig of None \<Rightarrow> Inl KeyError | Some destinations \<Rightarrow>
     (case map_of destinations dest of None \<Rightarrow> Inl KeyError | Some tickerhashes \<Rightarrow>
     (case map_of tickerhashes th of None \<Rightarrow> Inl KeyError | Some route \<Rightarrow>
        Inr (AList.update orig
              (AList.update dest
                (AList.update th (AList.update bin_name generated_data route) tickerhashes)
                destinations)
              pd))))"

fun populate_route ::
    "bin_stats \<Rightarrow> string \<Rightarrow> string \<Rightarrow> string \<Rightarrow> string list \<Rightarrow> string list \<Rightarrow> dataset
     \<Rightarrow> error + dataset" where
  "populate_route bin_stats orig dest th existing_bins [] pd = Inr pd"
| "populate_route bin_stats orig dest th existing_bins (bin_name # rest) pd =
     (case get_route pd orig dest th of
        Inl e \<Rightarrow> Inl e
      | Inr route_data \<Rightarrow>
          (case interpolate_bin_data bin_stats bin_name existing_bins (Some route_data) of
             Inl e \<Rightarrow> Inl e
           | Inr generated_data \<Rightarrow>
               (case set_bin pd orig dest th bin_name generated_data of
                  Inl e \<Rightarrow> Inl e
                | Inr pd' \<Rightarrow> populate_route bin_stats orig dest th existing_bins rest pd')))"

fun populate_combinations ::
    "bin_stats \<Rightarrow> (string \<times> string \<times> string \<times> string list) list \<Rightarrow> dataset
     \<Rightarrow> error + dataset" where
  "populate_combinations bin_stats [] pd = Inr pd"
| "populate_combinations bin_stats ((orig, dest, th, missing_bins) # rest) pd =
     (case get_route pd orig dest th of
        Inl e \<Rightarrow> Inl e
      | Inr route \<Rightarrow>
          (case populate_route bin_stats orig dest th (map fst route) missing_bins pd of
             Inl e \<Rightarrow> Inl e
           | Inr pd' \<Rightarrow> populate_combinations bin_stats rest pd'))"

definition populate_missing_bins ::
    "dataset \<Rightarrow> (string \<times> string \<times> string \<times> string list) list \<Rightarrow> error + dataset" where
  "populate_missing_bins data missing_combinations =
     populate_combinations (collect_bin_statistics data) missing_combinations data"

section \<open>Lookup (\<open>tests/lookup_settlement_times.py\<close>)\<close>

text \<open>
  The chain and asset catalog \<open>chain_data.json\<close>:
  \<open>{hub: {assets: {symbol: {tickerHash}}}, chains: {id: {assets: {symbol: {tickerHash}}}}}\<close>.
  The keys \<open>hub\<close>, \<open>chains\<close> and \<open>assets\<close> may be absent (the code tests for them or
  reads them with \<open>.get\<close>); every asset entry has its \<open>tickerHash\<close>.
\<close>

record asset_info =
  tickerHash :: string

type_synonym assets = "asset_info dict"

record chain_info =
  chain_assets :: "assets option"

record hub_info =
  hub_assets :: "assets option"

record chain_data =
  hub :: "hub_info option"
  chains :: "chain_info dict option"

text \<open>
  \<open>str.upper\<close>, on ASCII letters; the code compares \<open>symbol.upper()\<close> with
  \<open>asset_name.upper()\<close>.
\<close>

definition upper_char :: "char \<Rightarrow> char" where
  "upper_char ch =
     (case map_of (zip ''abcdefghijklmnopqrstuvwxyz'' ''ABCDEFGHIJKLMNOPQRSTUVWXYZ'') ch of
        Some u \<Rightarrow> u
      | None \<Rightarrow> ch)"

definition upper :: "string \<Rightarrow> string" where
  "upper s = map upper_char s"

text \<open>
  \<open>get_ticker_hash_from_asset_name\<close>. \<open>search_assets\<close> is the loop over one asset dict
  with its \<open>return\<close> at the first match, \<open>search_chains\<close> the final loop over all
  chains. A \<open>chain_data\<close> of \<open>None\<close> (the catalog could not be loaded) returns \<open>None\<close>; an
  \<open>origin_chain\<close> that is \<open>None\<close> or the empty string skips the search of the hinted chain.
\<close>

fun search_assets :: "assets \<Rightarrow> string \<Rightarrow> string option" where
  "search_assets [] asset_name = None"
| "search_assets ((symbol, info) # rest) asset_name =
     (if upper symbol = upper asset_name then Some (tickerHash info)
      else search_assets rest asset_name)"

fun search_chains :: "chain_info dict \<Rightarrow> string \<Rightarrow> string option" where
  "search_chains [] asset_name = None"
| "search_chains ((chain_id, info) # rest) asset_name =
     (case chain_assets info of
        None \<Rightarrow> search_chains rest asset_name
      | Some a \<Rightarrow>
          (case search_assets a asset_name of
             Some h \<Rightarrow> Some h
           | None \<Rightarrow> search_chains rest asset_name))"

definition get_ticker_hash_from_asset_name ::
    "chain_data option \<Rightarrow> string \<Rightarrow> string option \<Rightarrow> string option" where
  "get_ticker_hash_from_asset_name chain_data asset_name origin_chain =
     (case chain_data of
        None \<Rightarrow> None
      | Some cd \<Rightarrow>
          (case (case hub cd of
                   None \<Rightarrow> None
                 | Some h \<Rightarrow> (case hub_assets h of
                               None \<Rightarrow> None
                             | Some a \<Rightarrow> search_assets a asset_name)) of
             Some h \<Rightarrow> Some h
           | None \<Rightarrow>
               (let all_chains = (case chains cd of None \<Rightarrow> [] | Some cs \<Rightarrow> cs)
                in case (case origin_chain of
                           None \<Rightarrow> None
                         | Some oc \<Rightarrow>
                             if oc = [] then None
                             else (case map_of all_chains oc of
                                     None \<Rightarrow> None
                                   | Some info \<Rightarrow>
                                       search_assets
                                         (case chain_assets info of None \<Rightarrow> [] | Some a \<Rightarrow> a)
                                         asset_name)) of
                     Some h \<Rightarrow> Some h
                   | None \<Rightarrow> search_chains all_chains asset_name)))"

text \<open>
  \<open>lookup_settlement_times\<close>, on the contents of the JSON file (\<open>None\<close> when the file is
  missing or not JSON). Every \<open>return None\<close> of the source is a \<open>None\<close> here. An
  \<open>amount_range\<close> that is \<open>None\<close> or the empty string selects the first key of the
  route's dict; the final read \<open>asset_data[target_range]\<close> is of a key known to be present.
\<close>

record lookup_result =
  r_origin_chain :: string
  r_destination_chain :: string
  r_asset :: string
  r_amount_range :: string
  r_p25 :: jval
  r_p50 :: jval
  r_p75 :: jval
  r_sample_size :: int
  r_generated :: bool
  r_method :: string

definition lookup_settlement_times ::
    "dataset option \<Rightarrow> string \<Rightarrow> string \<Rightarrow> string \<Rightarrow> string option \<Rightarrow> lookup_result option" where
  "lookup_settlement_times json_file origin_chain destination_chain asset_hash amount_range =
     (case json_file of None \<Rightarrow> None | Some data \<Rightarrow>
     (case map_of data origin_chain of None \<Rightarrow> None | Some destinations \<Rightarrow>
     (case map_of destinations destination_chain of None \<Rightarrow> None | Some tickerhashes \<Rightarrow>
     (case map_of tickerhashes asset_hash of None \<Rightarrow> None | Some asset_data \<Rightarrow>
     (case (case amount_range of
              Some ar \<Rightarrow>
                if ar \<noteq> [] then (if map_of asset_data ar = None then None else Some ar)
                else (case map fst asset_data of [] \<Rightarrow> None | first # others \<Rightarrow> Some first)
            | None \<Rightarrow> (case map fst asset_data of [] \<Rightarrow> None | first # others \<Rightarrow> Some first)) of
        None \<Rightarrow> None
      | Some target_range \<Rightarrow>
          (case map_of asset_data target_range of
             None \<Rightarrow> None
           | Some range_data \<Rightarrow>
               Some \<lparr>r_origin_chain = origin_chain,
                     r_destination_chain = destination_chain,
                     r_asset = asset_hash,
                     r_amount_range = target_range,
                     r_p25 = p25 range_data,
                     r_p50 = p50 range_data,
                     r_p75 = p75 range_data,
                     r_sample_size = sample_size range_data,
                     r_generated = (case generated range_data of None \<Rightarrow> False | Some g \<Rightarrow> g),
                     r_method = (case method_name range_data of None \<Rightarrow> ''N/A'' | Some m \<Rightarrow> m)\<rparr>))))))"

section \<open>Specification vocabulary\<close>

text \<open>
  Well-formed input: the keys of every dict are distinct (\<open>keys_distinct\<close>) and the three
  stored percentiles of every bin are numbers (\<open>all_numeric\<close>).
\<close>

fun is_num :: "jval \<Rightarrow> bool" where
  "is_num (Num x) = True"
| "is_num (Str s) = False"
| "is_num Null = False"

definition numeric_bin :: "bin \<Rightarrow> bool" where
  "numeric_bin b = (is_num (p25 b) \<and> is_num (p50 b) \<and> is_num (p75 b))"

definition keys_distinct :: "dataset \<Rightarrow> bool" where
  "keys_distinct data =
     (distinct (map fst data) \<and>
      list_all (\<lambda>(orig, destinations). distinct (map fst destinations) \<and>
        list_all (\<lambda>(dest, tickerhashes). distinct (map fst tickerhashes) \<and>
          list_all (\<lambda>(th, route). distinct (map fst route)) tickerhashes)
        destinations)
      data)"

definition all_numeric :: "dataset \<Rightarrow> bool" where
  "all_numeric data =
     list_all (\<lambda>(orig, destinations).
       list_all (\<lambda>(dest, tickerhashes).
         list_all (\<lambda>(th, route).
           list_all (\<lambda>(bin_name, bin_data). numeric_bin bin_data) route)
         tickerhashes)
       destinations)
     data"

definition well_formed :: "dataset \<Rightarrow> bool" where
  "well_formed data = (keys_distinct data \<and> all_numeric data)"

text \<open>
  \<open>fully_populated\<close>: every route holds all eight canonical bins. \<open>bin_at\<close> reads the bin
  of a route and bucket, \<open>data[orig][dest][th].get(bin_name)\<close>.
\<close>

definition fully_populated :: "dataset \<Rightarrow> bool" where
  "fully_populated data =
     list_all (\<lambda>(orig, destinations).
       list_all (\<lambda>(dest, tickerhashes).
         list_all (\<lambda>(th, route).
           list_all (\<lambda>bin_name. bin_name \<in> set (map fst route)) EXPECTED_BINS)
         tickerhashes)
       destinations)
     data"

definition bin_at :: "dataset \<Rightarrow> string \<Rightarrow> string \<Rightarrow> string \<Rightarrow> string \<Rightarrow> bin option" where
  "bin_at data orig dest th bin_name =
     (case get_route data orig dest th of Inl e \<Rightarrow> None | Inr route \<Rightarrow> map_of route bin_name)"


text \<open>
  Asset resolution as the specification words it: the catalogs are searched in the order
  hub, hinted chain, every chain, and the first entry whose symbol matches without regard
  to case gives the ticker hash; no match gives no key.
\<close>

definition search_order :: "chain_data \<Rightarrow> string option \<Rightarrow> (string \<times> asset_info) list" where
  "search_order cd hint =
     (let all_chains = (case chains cd of None \<Rightarrow> [] | Some cs \<Rightarrow> cs);
          assets_of = (\<lambda>info. case chain_assets info of None \<Rightarrow> [] | Some a \<Rightarrow> a)
      in (case hub cd of None \<Rightarrow> [] | Some h \<Rightarrow> (case hub_assets h of None \<Rightarrow> [] | Some a \<Rightarrow> a))
         @ (case hint of
              None \<Rightarrow> []
            | Some oc \<Rightarrow> (case map_of all_chains oc of None \<Rightarrow> [] | Some info \<Rightarrow> assets_of info))
         @ concat (map (\<lambda>(chain_id, info). assets_of info) all_chains))"

definition resolve_asset_spec :: "chain_data \<Rightarrow> string \<Rightarrow> string option \<Rightarrow> string option" where
  "resolve_asset_spec cd asset_name hint =
     map_option (\<lambda>(symbol, info). tickerHash info)
       (List.find (\<lambda>(symbol, info). upper symbol = upper asset_name) (search_order cd hint))"

text \<open>
  Proof vocabulary for the gap filler. \<open>fill_bins\<close> is the inner loop of
  \<open>populate_missing_bins\<close> seen from one route: it threads the route's dict alone.
  \<open>routes\<close> lists the routes of a dataset with their keys, in iteration order;
  \<open>missing_bins_of\<close> is the list comprehension of \<open>find_missing_bins\<close>; \<open>select_missing\<close>
  is \<open>find_missing_bins\<close> over the list of routes. \<open>stats_len\<close> and \<open>stats_num\<close> are the
  invariants of the statistics table: the three lists of a bin have the same length, and
  they hold numbers.
\<close>

fun fill_bins :: "bin_stats \<Rightarrow> string list \<Rightarrow> string list \<Rightarrow> bins \<Rightarrow> error + bins" where
  "fill_bins bin_stats existing_bins [] route = Inr route"
| "fill_bins bin_stats existing_bins (bin_name # rest) route =
     (case interpolate_bin_data bin_stats bin_name existing_bins (Some route) of
        Inl e \<Rightarrow> Inl e
      | Inr generated_data \<Rightarrow>
          fill_bins bin_stats existing_bins rest (AList.update bin_name generated_data route))"

fun combo_key :: "string \<times> string \<times> string \<times> string list \<Rightarrow> string \<times> string \<times> string" where
  "combo_key (a, b, c, m) = (a, b, c)"

definition flat :: "('a \<times> ('b \<times> 'c) list) list \<Rightarrow> (('a \<times> 'b) \<times> 'c) list" where
  "flat xs = concat (map (\<lambda>(a, ys). map (\<lambda>(b, c). ((a, b), c)) ys) xs)"

definition routes :: "dataset \<Rightarrow> ((string \<times> string \<times> string) \<times> bins) list" where
  "routes data = flat (map (\<lambda>(orig, destinations). (orig, flat destinations)) data)"

definition missing_bins_of :: "bins \<Rightarrow> string list" where
  "missing_bins_of route = filter (\<lambda>bin_name. bin_name \<notin> set (map fst route)) EXPECTED_BINS"

definition select_missing ::
    "((string \<times> string \<times> string) \<times> bins) list \<Rightarrow> (string \<times> string \<times> string \<times> string list) list" where
  "select_missing rs =
     concat (map (\<lambda>((a, b, c), r).
       if missing_bins_of r \<noteq> [] then [(a, b, c, missing_bins_of r)] else []) rs)"

definition stats_len :: "bin_stats \<Rightarrow> bool" where
  "stats_len bs = (\<forall>n m. map_of bs n = Some m \<longrightarrow>
     length (ml_p50 m) = length (ml_p25 m) \<and> length (ml_p75 m) = length (ml_p25 m))"

definition stats_num :: "bin_stats \<Rightarrow> bool" where
  "stats_num bs = (\<forall>n m. map_of bs n = Some m \<longrightarrow>
     list_all is_num (ml_p25 m) \<and> list_all is_num (ml_p50 m) \<and> list_all is_num (ml_p75 m))"

section \<open>Example datasets\<close>

text \<open>
  One route \<open>1 \<rightarrow> 10\<close> for the asset \<open>0xabc\<close>, with: only the real bin
  \<open>50000-100000\<close>; no bin at all; only the real bin \<open>0-50000\<close> with median 10; all
  eight bins; a \<open>0-50000\<close> bin whose \<open>p25\<close> is a string; a \<open>0-50000\<close> bin whose \<open>p50\<close>
  is a string.
\<close>

definition real_bin :: "rat \<Rightarrow> rat \<Rightarrow> rat \<Rightarrow> int \<Rightarrow> bin" where
  "real_bin a b c n =
     \<lparr>p25 = Num a, p50 = Num b, p75 = Num c, sample_size = n, generated = None, method_name = None\<rparr>"

definition generated_bin :: "rat \<Rightarrow> rat \<Rightarrow> rat \<Rightarrow> string \<Rightarrow> bin" where
  "generated_bin a b c m =
     \<lparr>p25 = Num a, p50 = Num b, p75 = Num c, sample_size = 0, generated = Some True,
      method_name = Some m\<rparr>"

definition example_sparse :: dataset where
  "example_sparse = [(''1'', [(''10'', [(''0xabc'', [(''50000-100000'', real_bin 8 12 20 5)])])])]"

definition example_empty_route :: dataset where
  "example_empty_route = [(''1'', [(''10'', [(''0xabc'', [])])])]"

definition example_baseline :: dataset where
  "example_baseline = [(''1'', [(''10'', [(''0xabc'', [(''0-50000'', real_bin 8 10 14 5)])])])]"

definition example_full :: dataset where
  "example_full = [(''1'', [(''10'', [(''0xabc'',
     [(''0-50000'', real_bin 8 10 14 5),
      (''50000-100000'', real_bin 9 12 20 3),
      (''100000-300000'', generated_bin (21 / 2) 15 (39 / 2) ''baseline_scaling''),
      (''300000-400000'', generated_bin (63 / 5) 18 (117 / 5) ''baseline_scaling''),
      (''400000-500000'', generated_bin 14 20 26 ''baseline_scaling''),
      (''500000-700000'', generated_bin (35 / 2) 25 (65 / 2) ''baseline_scaling''),
      (''700000-1000000'', generated_bin 21 30 39 ''baseline_scaling''),
      (''1000000+'', generated_bin 28 40 52 ''baseline_scaling'')])])])]"



section \<open>Properties of the bucket catalog\<close>

text \<open>
  C3, as stated: the buckets are the half-open ranges \<open>[lo, hi)\<close>, so every amount
  \<open>a\<close> with \<open>50000 \<le> a < 100000\<close> maps to \<open>50000-100000\<close>. The code compares with
  \<open>\<le>\<close>: the amount 50000 itself lies in that range and maps to \<open>0-50000\<close>.
\<close>

theorem C3_half_open_counterexample:
  "(50000::rat) \<le> 50000 \<and> (50000::rat) < 100000 \<and>
   find_amount_bucket 50000 = ''0-50000'' \<and> find_amount_bucket 50000 \<noteq> ''50000-100000''"
  by (simp add: find_amount_bucket_def)

text \<open>
  C3, amended: the eight buckets partition the non-negative amounts into the ranges
  \<open>[0, 50000]\<close>, \<open>(50000, 100000]\<close>, \<open>(100000, 300000]\<close>, \<open>(300000, 400000]\<close>,
  \<open>(400000, 500000]\<close>, \<open>(500000, 700000]\<close>, \<open>(700000, 1000000]\<close>, \<open>(1000000, \<infinity>)\<close>
  (upper bounds inclusive): for every non-negative amount \<open>find_amount_bucket\<close> returns a
  canonical bucket, and it returns a given bucket exactly when the amount lies in that
  bucket's range.
\<close>

theorem C3_inclusive_upper_partition:
  "0 \<le> a \<Longrightarrow>
     find_amount_bucket a \<in> set EXPECTED_BINS
   \<and> (find_amount_bucket a = ''0-50000'' \<longleftrightarrow> 0 \<le> a \<and> a \<le> 50000)
   \<and> (find_amount_bucket a = ''50000-100000'' \<longleftrightarrow> 50000 < a \<and> a \<le> 100000)
   \<and> (find_amount_bucket a = ''100000-300000'' \<longleftrightarrow> 100000 < a \<and> a \<le> 300000)
   \<and> (find_amount_bucket a = ''300000-400000'' \<longleftrightarrow> 300000 < a \<and> a \<le> 400000)
   \<and> (find_amount_bucket a = ''400000-500000'' \<longleftrightarrow> 400000 < a \<and> a \<le> 500000)
   \<and> (find_amount_bucket a = ''500000-700000'' \<longleftrightarrow> 500000 < a \<and> a \<le> 700000)
   \<and> (find_amount_bucket a = ''700000-1000000'' \<longleftrightarrow> 700000 < a \<and> a \<le> 1000000)
   \<and> (find_amount_bucket a = ''1000000+'' \<longleftrightarrow> 1000000 < a)"
  by (simp add: find_amount_bucket_def EXPECTED_BINS_def)

theorem C3_inclusive_upper_partition_witness:
  "(0::rat) \<le> 50000 + 1 / 100 \<and> find_amount_bucket (50000 + 1 / 100) \<in> set EXPECTED_BINS \<and>
   find_amount_bucket (50000 + 1 / 100) = ''50000-100000''"
  using C3_inclusive_upper_partition [of "50000 + 1 / 100"] by (simp add: EXPECTED_BINS_def)

text \<open>
  C4, as stated: a negative amount fails with \<open>InvalidAmount\<close>. The code has no such
  check: \<open>-1\<close> is mapped to the canonical bucket \<open>0-50000\<close>.
\<close>

theorem C4_negative_amount_counterexample:
  "(-1::rat) < 0 \<and> find_amount_bucket (-1) = ''0-50000'' \<and> ''0-50000'' \<in> set EXPECTED_BINS"
  by (simp add: find_amount_bucket_def EXPECTED_BINS_def)

text \<open>
  C4, amended: \<open>find_amount_bucket\<close> never fails; every negative amount is mapped to
  the lowest bucket \<open>0-50000\<close>.
\<close>

theorem C4_negative_amount_lowest_bucket:
  "a < 0 \<Longrightarrow> find_amount_bucket a = ''0-50000''"
  by (simp add: find_amount_bucket_def)

theorem C4_negative_amount_lowest_bucket_witness:
  "(-1::rat) < 0 \<and> find_amount_bucket (-1) = ''0-50000''"
  using C4_negative_amount_lowest_bucket [of "-1"] by simp

section \<open>Properties of the lookup\<close>

lemma find_append:
  "List.find P (xs @ ys) = (case List.find P xs of Some x \<Rightarrow> Some x | None \<Rightarrow> List.find P ys)"
  by (induction xs) auto

lemma search_assets_find:
  "search_assets a asset_name =
   map_option (\<lambda>(symbol, info). tickerHash info)
     (List.find (\<lambda>(symbol, info). upper symbol = upper asset_name) a)"
  by (induction a asset_name rule: search_assets.induct) auto

lemma search_chains_find:
  "search_chains cs asset_name =
   map_option (\<lambda>(symbol, info). tickerHash info)
     (List.find (\<lambda>(symbol, info). upper symbol = upper asset_name)
        (concat (map (\<lambda>(chain_id, info). case chain_assets info of None \<Rightarrow> [] | Some a \<Rightarrow> a) cs)))"
proof (induction cs asset_name rule: search_chains.induct)
  case (1 asset_name)
  then show ?case by simp
next
  case (2 chain_id info rest asset_name)
  then show ?case
    by (auto simp: search_assets_find find_append split: option.splits)
qed

text \<open>
  C9: asset resolution searches the hub assets, then the assets of the hinted origin chain,
  then the assets of every chain, and returns the \<open>tickerHash\<close> of the first entry whose
  symbol matches the query without regard to case; when no entry of these catalogs
  matches, it returns no key. (An empty-string hint counts as no hint.)
\<close>

theorem C9_asset_resolution_order:
  "get_ticker_hash_from_asset_name (Some cd) asset_name hint =
     resolve_asset_spec cd asset_name (if hint = Some [] then None else hint)"
  unfolding get_ticker_hash_from_asset_name_def resolve_asset_spec_def search_order_def Let_def
  by (auto simp: search_assets_find search_chains_find find_append split: option.splits list.splits)

text \<open>
  C10: called with no amount range, for an origin, destination and asset that are in the
  dataset with at least one stored bucket, the lookup succeeds: it returns the statistics
  of the first stored bucket of the route and reports that bucket's name.
\<close>

theorem C10_lookup_first_range:
  assumes "map_of data origin_chain = Some destinations"
    and "map_of destinations destination_chain = Some tickerhashes"
    and "map_of tickerhashes asset_hash = Some ((first_range, range_data) # others)"
  shows "lookup_settlement_times (Some data) origin_chain destination_chain asset_hash None =
     Some \<lparr>r_origin_chain = origin_chain,
           r_destination_chain = destination_chain,
           r_asset = asset_hash,
           r_amount_range = first_range,
           r_p25 = p25 range_data,
           r_p50 = p50 range_data,
           r_p75 = p75 range_data,
           r_sample_size = sample_size range_data,
           r_generated = (case generated range_data of None \<Rightarrow> False | Some g \<Rightarrow> g),
           r_method = (case method_name range_data of None \<Rightarrow> ''N/A'' | Some m \<Rightarrow> m)\<rparr>"
  using assms by (simp add: lookup_settlement_times_def)

theorem C10_lookup_first_range_witness:
  "map_of example_sparse ''1'' = Some [(''10'', [(''0xabc'', [(''50000-100000'', real_bin 8 12 20 5)])])] \<and>
   lookup_settlement_times (Some example_sparse) ''1'' ''10'' ''0xabc'' None =
     Some \<lparr>r_origin_chain = ''1'', r_destination_chain = ''10'', r_asset = ''0xabc'',
           r_amount_range = ''50000-100000'', r_p25 = Num 8, r_p50 = Num 12, r_p75 = Num 20,
           r_sample_size = 5, r_generated = False, r_method = ''N/A''\<rparr>"
proof -
  have 1: "map_of example_sparse ''1'' =
      Some [(''10'', [(''0xabc'', [(''50000-100000'', real_bin 8 12 20 5)])])]"
    by (simp add: example_sparse_def)
  have 2: "map_of [(''10'', [(''0xabc'', [(''50000-100000'', real_bin 8 12 20 5)])])] ''10'' =
      Some [(''0xabc'', [(''50000-100000'', real_bin 8 12 20 5)])]"
    by simp
  have 3: "map_of [(''0xabc'', [(''50000-100000'', real_bin 8 12 20 5)])] ''0xabc'' =
      Some ((''50000-100000'', real_bin 8 12 20 5) # [])"
    by simp
  from C10_lookup_first_range [OF 1 2 3] show ?thesis using 1 by (simp add: real_bin_def)
qed

section \<open>The loops of the gap filler\<close>

text \<open>
  A write to one route changes the read of that route and of no other; so the inner loop
  is \<open>fill_bins\<close> on the route's dict, and the outer loop, over distinct routes, applies
  \<open>fill_bins\<close> to the bins each route had at the start.
\<close>

lemma get_route_set_bin:
  assumes "set_bin pd a b c n g = Inr pd'"
  shows "get_route pd' a' b' c' =
    (if a' = a \<and> b' = b \<and> c' = c
     then (case get_route pd a b c of Inl e \<Rightarrow> Inl e | Inr r \<Rightarrow> Inr (AList.update n g r))
     else get_route pd a' b' c')"
proof -
  from assms obtain ds ts r where
    1: "map_of pd a = Some ds" and 2: "map_of ds b = Some ts" and 3: "map_of ts c = Some r" and
    4: "pd' = AList.update a (AList.update b (AList.update c (AList.update n g r) ts) ds) pd"
    by (auto simp: set_bin_def split: option.splits)
  show ?thesis
    unfolding get_route_def 4 using 1 2 3 by (simp add: AList.update_conv')
qed

lemma set_bin_ok:
  "get_route pd a b c = Inr r \<Longrightarrow> \<exists>pd'. set_bin pd a b c n g = Inr pd'"
  by (auto simp: set_bin_def get_route_def split: option.splits)

lemma populate_route_fail:
  "get_route pd a b c = Inr r \<Longrightarrow> fill_bins bs ex ms r = Inl e \<Longrightarrow>
   populate_route bs a b c ex ms pd = Inl e"
proof (induction ms arbitrary: pd r)
  case Nil
  then show ?case by simp
next
  case (Cons n ms)
  show ?case
  proof (cases "interpolate_bin_data bs n ex (Some r)")
    case (Inl e')
    with Cons.prems show ?thesis by simp
  next
    case (Inr g)
    from set_bin_ok [OF Cons.prems(1)] obtain pd1 where s: "set_bin pd a b c n g = Inr pd1"
      by blast
    have g1: "get_route pd1 a b c = Inr (AList.update n g r)"
      using get_route_set_bin [OF s, of a b c] Cons.prems(1) by simp
    from Cons.prems(2) Inr have "fill_bins bs ex ms (AList.update n g r) = Inl e" by simp
    from Cons.IH [OF g1 this] show ?thesis using Cons.prems(1) Inr s by simp
  qed
qed

lemma populate_route_ok:
  "get_route pd a b c = Inr r \<Longrightarrow> fill_bins bs ex ms r = Inr r' \<Longrightarrow>
   \<exists>pd'. populate_route bs a b c ex ms pd = Inr pd' \<and>
     (\<forall>a' b' c'. get_route pd' a' b' c' =
        (if a' = a \<and> b' = b \<and> c' = c then Inr r' else get_route pd a' b' c'))"
proof (induction ms arbitrary: pd r)
  case Nil
  then show ?case by auto
next
  case (Cons n ms)
  show ?case
  proof (cases "interpolate_bin_data bs n ex (Some r)")
    case (Inl e')
    with Cons.prems show ?thesis by simp
  next
    case (Inr g)
    from set_bin_ok [OF Cons.prems(1)] obtain pd1 where s: "set_bin pd a b c n g = Inr pd1"
      by blast
    have g1: "get_route pd1 a' b' c' =
        (if a' = a \<and> b' = b \<and> c' = c then Inr (AList.update n g r) else get_route pd a' b' c')"
      for a' b' c'
      using get_route_set_bin [OF s, of a' b' c'] Cons.prems(1) by simp
    then have g1': "get_route pd1 a b c = Inr (AList.update n g r)" by simp
    from Cons.prems(2) Inr have "fill_bins bs ex ms (AList.update n g r) = Inr r'" by simp
    from Cons.IH [OF g1' this] obtain pd' where
      p: "populate_route bs a b c ex ms pd1 = Inr pd'" and
      q: "\<And>a' b' c'. get_route pd' a' b' c' =
        (if a' = a \<and> b' = b \<and> c' = c then Inr r' else get_route pd1 a' b' c')"
      by blast
    have "populate_route bs a b c ex (n # ms) pd = Inr pd'"
      using Cons.prems(1) Inr s p by simp
    moreover have "get_route pd' a' b' c' =
        (if a' = a \<and> b' = b \<and> c' = c then Inr r' else get_route pd a' b' c')" for a' b' c'
      using q [of a' b' c'] g1 [of a' b' c'] by simp
    ultimately show ?thesis by blast
  qed
qed

lemma populate_combinations_ok:
  assumes "distinct (map combo_key ms)"
    and "\<And>a b c m. (a, b, c, m) \<in> set ms \<Longrightarrow>
           \<exists>r r'. get_route pd a b c = Inr r \<and> fill_bins bs (map fst r) m r = Inr r'"
  shows "\<exists>pd'. populate_combinations bs ms pd = Inr pd' \<and>
     (\<forall>a b c. get_route pd' a b c =
        (case map_of (map (\<lambda>x. (combo_key x, snd (snd (snd x)))) ms) (a, b, c) of
           None \<Rightarrow> get_route pd a b c
         | Some m \<Rightarrow> (case get_route pd a b c of
                      Inl e \<Rightarrow> Inl e
                    | Inr r \<Rightarrow> fill_bins bs (map fst r) m r)))"
  using assms
proof (induction ms arbitrary: pd)
  case Nil
  then show ?case by simp
next
  case (Cons x ms)
  obtain a0 b0 c0 m0 where x: "x = (a0, b0, c0, m0)" by (cases x) auto
  from Cons.prems(2) [of a0 b0 c0 m0] x obtain r0 r0' where
    g0: "get_route pd a0 b0 c0 = Inr r0" and f0: "fill_bins bs (map fst r0) m0 r0 = Inr r0'"
    by auto
  from populate_route_ok [OF g0 f0] obtain pd1 where
    p1: "populate_route bs a0 b0 c0 (map fst r0) m0 pd = Inr pd1" and
    g1: "\<And>a' b' c'. get_route pd1 a' b' c' =
        (if a' = a0 \<and> b' = b0 \<and> c' = c0 then Inr r0' else get_route pd a' b' c')"
    by blast
  have notin: "(a0, b0, c0) \<notin> combo_key ` set ms" using Cons.prems(1) x by simp
  have d: "distinct (map combo_key ms)" using Cons.prems(1) by simp
  have pre: "\<exists>r r'. get_route pd1 a b c = Inr r \<and> fill_bins bs (map fst r) m r = Inr r'"
    if "(a, b, c, m) \<in> set ms" for a b c m
  proof -
    from that notin have "(a, b, c) \<noteq> (a0, b0, c0)" by force
    then have "get_route pd1 a b c = get_route pd a b c" using g1 [of a b c] by auto
    then show ?thesis using Cons.prems(2) [of a b c m] that by simp
  qed
  from Cons.IH [OF d pre] obtain pd' where
    p: "populate_combinations bs ms pd1 = Inr pd'" and
    q: "\<And>a b c. get_route pd' a b c =
        (case map_of (map (\<lambda>x. (combo_key x, snd (snd (snd x)))) ms) (a, b, c) of
           None \<Rightarrow> get_route pd1 a b c
         | Some m \<Rightarrow> (case get_route pd1 a b c of
                      Inl e \<Rightarrow> Inl e
                    | Inr r \<Rightarrow> fill_bins bs (map fst r) m r))"
    by blast
  have res: "populate_combinations bs (x # ms) pd = Inr pd'"
    using x g0 p1 p by simp
  have none0: "map_of (map (\<lambda>x. (combo_key x, snd (snd (snd x)))) ms) (a0, b0, c0) = None"
    using notin by (force simp: map_of_eq_None_iff image_iff)
  have "get_route pd' a b c =
        (case map_of (map (\<lambda>x. (combo_key x, snd (snd (snd x)))) (x # ms)) (a, b, c) of
           None \<Rightarrow> get_route pd a b c
         | Some m \<Rightarrow> (case get_route pd a b c of
                      Inl e \<Rightarrow> Inl e
                    | Inr r \<Rightarrow> fill_bins bs (map fst r) m r))" for a b c
  proof (cases "(a, b, c) = (a0, b0, c0)")
    case True
    then show ?thesis using q [of a b c] none0 g1 [of a b c] x g0 f0 by simp
  next
    case False
    then have eq: "get_route pd1 a b c = get_route pd a b c" using g1 [of a b c] by auto
    show ?thesis using False x unfolding q [of a b c] eq by auto
  qed
  with res show ?case by blast
qed

lemma populate_combinations_fail:
  assumes "distinct (map combo_key ms)"
    and "\<forall>a b c m. (a, b, c, m) \<in> set ms \<longrightarrow> (\<exists>r. get_route pd a b c = Inr r)"
    and "populate_combinations bs ms pd = Inl e"
  shows "\<exists>a b c m r. (a, b, c, m) \<in> set ms \<and> get_route pd a b c = Inr r \<and>
           fill_bins bs (map fst r) m r = Inl e"
  using assms
proof (induction ms arbitrary: pd)
  case Nil
  then show ?case by simp
next
  case (Cons x ms)
  obtain a0 b0 c0 m0 where x: "x = (a0, b0, c0, m0)" by (cases x) auto
  from Cons.prems(2) x have "\<exists>r. get_route pd a0 b0 c0 = Inr r" by simp
  then obtain r0 where g0: "get_route pd a0 b0 c0 = Inr r0" by blast
  show ?case
  proof (cases "fill_bins bs (map fst r0) m0 r0")
    case (Inl e')
    from populate_route_fail [OF g0 Inl] Cons.prems(3) x g0 have "e' = e" by simp
    with Inl g0 x show ?thesis by (intro exI [of _ a0] exI [of _ b0] exI [of _ c0] exI [of _ m0] exI [of _ r0]) simp
  next
    case (Inr r0')
    from populate_route_ok [OF g0 Inr] obtain pd1 where
      p1: "populate_route bs a0 b0 c0 (map fst r0) m0 pd = Inr pd1" and
      g1: "\<And>a' b' c'. get_route pd1 a' b' c' =
          (if a' = a0 \<and> b' = b0 \<and> c' = c0 then Inr r0' else get_route pd a' b' c')"
      by blast
    have notin: "(a0, b0, c0) \<notin> combo_key ` set ms" using Cons.prems(1) x by simp
    have d: "distinct (map combo_key ms)" using Cons.prems(1) by simp
    have same: "get_route pd1 a b c = get_route pd a b c" if "(a, b, c, m) \<in> set ms" for a b c m
    proof -
      from that notin have "(a, b, c) \<noteq> (a0, b0, c0)" by force
      then show ?thesis using g1 [of a b c] by auto
    qed
    have pre: "\<forall>a b c m. (a, b, c, m) \<in> set ms \<longrightarrow> (\<exists>r. get_route pd1 a b c = Inr r)"
      using same Cons.prems(2) by (metis list.set_intros(2))
    have "populate_combinations bs ms pd1 = Inl e"
      using Cons.prems(3) x g0 p1 by simp
    from Cons.IH [OF d pre this] obtain a b c m r where
      "(a, b, c, m) \<in> set ms" "get_route pd1 a b c = Inr r" "fill_bins bs (map fst r) m r = Inl e"
      by blast
    then show ?thesis using same [of a b c m] by (intro exI [of _ a] exI [of _ b] exI [of _ c] exI [of _ m] exI [of _ r]) simp
  qed
qed


subsection \<open>Routes of a dataset\<close>

lemma flat_simps [simp]:
  "flat [] = []"
  "flat ((a, ys) # xs) = map (\<lambda>(b, c). ((a, b), c)) ys @ flat xs"
  by (simp_all add: flat_def)

lemma set_flat:
  "((a, b), c) \<in> set (flat xs) \<longleftrightarrow> (\<exists>ys. (a, ys) \<in> set xs \<and> (b, c) \<in> set ys)"
  by (induction xs) auto

lemma fst_set_flat:
  "k \<in> fst ` set (flat xs) \<Longrightarrow> fst k \<in> fst ` set xs"
proof -
  assume "k \<in> fst ` set (flat xs)"
  then obtain a b c where "k = (a, b)" "((a, b), c) \<in> set (flat xs)" by force
  then show ?thesis using set_flat [of a b c xs] by force
qed

lemma distinct_flat:
  "distinct (map fst xs) \<Longrightarrow> (\<forall>(a, ys) \<in> set xs. distinct (map fst ys)) \<Longrightarrow>
   distinct (map fst (flat xs))"
proof (induction xs)
  case Nil
  then show ?case by simp
next
  case (Cons x xs)
  obtain a ys where x: "x = (a, ys)" by (cases x)
  have 1: "distinct (map fst (map (\<lambda>(b, c). ((a, b), c)) ys))"
  proof -
    have "map fst (map (\<lambda>(b, c). ((a, b), c)) ys) = map (Pair a) (map fst ys)"
      by (induction ys) auto
    moreover have "distinct (map fst ys)" using Cons.prems(2) x by simp
    ultimately show ?thesis by (simp add: distinct_map inj_on_def)
  qed
  have 2: "distinct (map fst (flat xs))" using Cons by simp
  have 3: "fst ` set (map (\<lambda>(b, c). ((a, b), c)) ys) \<inter> fst ` set (flat xs) = {}"
  proof -
    have "a \<notin> fst ` set xs" using Cons.prems(1) x by simp
    then have "\<And>k. k \<in> fst ` set (flat xs) \<Longrightarrow> fst k \<noteq> a" using fst_set_flat by metis
    then show ?thesis by force
  qed
  show ?case using 1 2 3 x by (simp add: image_image)
qed

lemma map_of_flat:
  "distinct (map fst xs) \<Longrightarrow>
   map_of (flat xs) (a, b) = (case map_of xs a of None \<Rightarrow> None | Some ys \<Rightarrow> map_of ys b)"
proof (induction xs)
  case Nil
  then show ?case by simp
next
  case (Cons x xs)
  obtain a' ys where x: "x = (a', ys)" by (cases x)
  have m: "map_of (map (\<lambda>(b, c). ((a', b), c)) ys) (a, b) = (if a = a' then map_of ys b else None)"
    by (induction ys) auto
  show ?case
  proof (cases "a = a'")
    case True
    then have "a \<notin> fst ` set xs" using Cons.prems x by simp
    then have "(a, b) \<notin> fst ` set (flat xs)" using fst_set_flat [of "(a, b)" xs] by auto
    then have "map_of (flat xs) (a, b) = None" by (simp add: map_of_eq_None_iff)
    then show ?thesis using True x m by (simp add: map_add_def split: option.splits)
  next
    case False
    then show ?thesis using Cons x m by (simp add: map_add_def)
  qed
qed

lemma concat_flat:
  "concat (map (\<lambda>(a, ys). concat (map (\<lambda>(b, c). g a b c) ys)) xs) =
   concat (map (\<lambda>((a, b), c). g a b c) (flat xs))"
proof (induction xs)
  case Nil
  then show ?case by simp
next
  case (Cons x xs)
  obtain a ys where x: "x = (a, ys)" by (cases x)
  have "map (\<lambda>((a, b), c). g a b c) (map (\<lambda>(b, c). ((a, b), c)) ys) = map (\<lambda>(b, c). g a b c) ys"
    by (simp add: case_prod_beta)
  then show ?case using Cons x by (simp add: case_prod_beta comp_def)
qed

lemma find_missing_bins_routes:
  "find_missing_bins data =
   concat (map (\<lambda>((a, b, c), r). if missing_bins_of r \<noteq> [] then [(a, b, c, missing_bins_of r)] else [])
     (routes data))"
proof -
  let ?g = "\<lambda>a b c r. if missing_bins_of r \<noteq> [] then [(a, b, c, missing_bins_of r)] else []"
  have 1: "find_missing_bins data =
    concat (map (\<lambda>(a, dests). concat (map (\<lambda>(b, ths). concat (map (\<lambda>(c, r). ?g a b c r) ths)) dests)) data)"
    unfolding find_missing_bins_def missing_bins_of_def Let_def by simp
  have 2: "concat (map (\<lambda>(b, ths). concat (map (\<lambda>(c, r). ?g a b c r) ths)) dests) =
    concat (map (\<lambda>((b, c), r). ?g a b c r) (flat dests))" for a :: string and dests :: "bins dict dict"
    by (rule concat_flat)
  have 3: "concat (map (\<lambda>(a, dests). concat (map (\<lambda>((b, c), r). ?g a b c r) (flat dests))) data) =
    concat (map (\<lambda>(a, ys). concat (map (\<lambda>(bc, r). ?g a (fst bc) (snd bc) r) ys))
      (map (\<lambda>(a, dests). (a, flat dests)) data))"
    by (simp add: split_def comp_def cong: if_cong)
  have 4: "concat (map (\<lambda>(a, ys). concat (map (\<lambda>(bc, r). ?g a (fst bc) (snd bc) r) ys))
      (map (\<lambda>(a, dests). (a, flat dests)) data)) =
    concat (map (\<lambda>((a, bc), r). ?g a (fst bc) (snd bc) r) (routes data))"
    unfolding routes_def by (rule concat_flat)
  show ?thesis unfolding 1 2 3 4 by (simp add: split_def)
qed

lemma keys_distinctD:
  assumes "keys_distinct data"
  shows "distinct (map fst data)"
    and "\<And>a dests. (a, dests) \<in> set data \<Longrightarrow> distinct (map fst dests)"
    and "\<And>a dests b ths. (a, dests) \<in> set data \<Longrightarrow> (b, ths) \<in> set dests \<Longrightarrow> distinct (map fst ths)"
  using assms by (auto simp: keys_distinct_def list_all_iff)

lemma map_of_routes:
  assumes "keys_distinct data"
  shows "map_of (routes data) (a, b, c) =
    (case map_of data a of None \<Rightarrow> None | Some dests \<Rightarrow>
     (case map_of dests b of None \<Rightarrow> None | Some ths \<Rightarrow> map_of ths c))"
proof -
  have d1: "distinct (map fst (map (\<lambda>(orig, destinations). (orig, flat destinations)) data))"
    using keys_distinctD(1) [OF assms] by (simp add: split_def comp_def)
  have m1: "map_of (map (\<lambda>(orig, destinations). (orig, flat destinations)) data) a =
    map_option flat (map_of data a)"
    by (induction data) auto
  show ?thesis
  proof (cases "map_of data a")
    case None
    then show ?thesis unfolding routes_def map_of_flat [OF d1] m1 by simp
  next
    case (Some dests)
    then have "(a, dests) \<in> set data" by (rule map_of_SomeD)
    then have "distinct (map fst dests)" by (rule keys_distinctD(2) [OF assms])
    then show ?thesis unfolding routes_def map_of_flat [OF d1] m1 using Some
      by (simp add: map_of_flat)
  qed
qed

lemma get_route_routes:
  "keys_distinct data \<Longrightarrow>
   get_route data a b c =
     (case map_of (routes data) (a, b, c) of None \<Rightarrow> Inl KeyError | Some r \<Rightarrow> Inr r)"
  by (simp add: map_of_routes get_route_def split: option.splits)

lemma distinct_routes:
  assumes "keys_distinct data"
  shows "distinct (map fst (routes data))"
  unfolding routes_def
proof (rule distinct_flat)
  show "distinct (map fst (map (\<lambda>(orig, destinations). (orig, flat destinations)) data))"
    using keys_distinctD(1) [OF assms] by (simp add: split_def comp_def)
  show "\<forall>(a, ys)\<in>set (map (\<lambda>(orig, destinations). (orig, flat destinations)) data).
       distinct (map fst ys)"
  proof (clarsimp)
    fix a dests
    assume "(a, dests) \<in> set data"
    then show "distinct (map fst (flat dests))"
      using keys_distinctD(2,3) [OF assms] by (intro distinct_flat) auto
  qed
qed

lemma routes_iff_get_route:
  "keys_distinct data \<Longrightarrow> ((a, b, c), r) \<in> set (routes data) \<longleftrightarrow> get_route data a b c = Inr r"
proof -
  assume kd: "keys_distinct data"
  have "map_of (routes data) (a, b, c) = Some r \<longleftrightarrow> ((a, b, c), r) \<in> set (routes data)"
    by (rule map_of_eq_Some_iff [OF distinct_routes [OF kd]])
  then have "((a, b, c), r) \<in> set (routes data) \<longleftrightarrow> map_of (routes data) (a, b, c) = Some r"
    by simp
  then show ?thesis unfolding get_route_routes [OF kd] by (auto split: option.splits)
qed

lemma select_missing_keyed:
  "map (\<lambda>x. (combo_key x, snd (snd (snd x)))) (select_missing rs) =
   map (\<lambda>(k, r). (k, missing_bins_of r)) (filter (\<lambda>(k, r). missing_bins_of r \<noteq> []) rs)"
  by (induction rs) (auto simp: select_missing_def)

lemma select_missing_keys:
  "map combo_key (select_missing rs) = map fst (filter (\<lambda>(k, r). missing_bins_of r \<noteq> []) rs)"
  by (induction rs) (auto simp: select_missing_def)

lemma set_select_missing:
  "(a, b, c, m) \<in> set (select_missing rs) \<longleftrightarrow>
   (\<exists>r. ((a, b, c), r) \<in> set rs \<and> m = missing_bins_of r \<and> m \<noteq> [])"
  by (induction rs) (auto simp: select_missing_def)

lemma map_of_filter_keyed:
  "distinct (map fst rs) \<Longrightarrow>
   map_of (map (\<lambda>(k, r). (k, f r)) (filter (\<lambda>(k, r). P r) rs)) k =
     (case map_of rs k of None \<Rightarrow> None | Some r \<Rightarrow> if P r then Some (f r) else None)"
proof (induction rs)
  case Nil
  then show ?case by simp
next
  case (Cons x rs)
  obtain k' r' where x: "x = (k', r')" by (cases x)
  show ?case
  proof (cases "k = k'")
    case True
    then have "k \<notin> fst ` set rs" using Cons.prems x by simp
    then have "k \<notin> fst ` set (map (\<lambda>(k, r). (k, f r)) (filter (\<lambda>(k, r). P r) rs))"
      by force
    then have "map_of (map (\<lambda>(k, r). (k, f r)) (filter (\<lambda>(k, r). P r) rs)) k = None"
      by (simp add: map_of_eq_None_iff)
    then show ?thesis using True x by simp
  next
    case False
    then show ?thesis using Cons x by simp
  qed
qed


lemma missing_combination_route:
  assumes "keys_distinct data" "(a, b, c, m) \<in> set (find_missing_bins data)"
  shows "\<exists>r. get_route data a b c = Inr r \<and> m = missing_bins_of r"
proof -
  have ms: "find_missing_bins data = select_missing (routes data)"
    by (simp add: find_missing_bins_routes select_missing_def)
  from assms(2) obtain r where "((a, b, c), r) \<in> set (routes data)" "m = missing_bins_of r"
    unfolding ms set_select_missing by blast
  then show ?thesis using routes_iff_get_route [OF assms(1)] by blast
qed

lemma distinct_missing_combinations:
  assumes "keys_distinct data"
  shows "distinct (map combo_key (find_missing_bins data))"
proof -
  have ms: "find_missing_bins data = select_missing (routes data)"
    by (simp add: find_missing_bins_routes select_missing_def)
  show ?thesis
    unfolding ms select_missing_keys using distinct_routes [OF assms] by (rule distinct_map_filter)
qed

lemma populate_success:
  assumes kd: "keys_distinct data"
    and ok: "\<And>a b c r. get_route data a b c = Inr r \<Longrightarrow>
      \<exists>r'. fill_bins (collect_bin_statistics data) (map fst r) (missing_bins_of r) r = Inr r'"
  shows "\<exists>data'. populate_missing_bins data (find_missing_bins data) = Inr data' \<and>
    (\<forall>a b c. get_route data' a b c =
       (case get_route data a b c of
          Inl e \<Rightarrow> Inl e
        | Inr r \<Rightarrow> fill_bins (collect_bin_statistics data) (map fst r) (missing_bins_of r) r))"
proof -
  let ?bs = "collect_bin_statistics data"
  let ?ms = "find_missing_bins data"
  have ms: "?ms = select_missing (routes data)"
    by (simp add: find_missing_bins_routes select_missing_def)
  have d: "distinct (map combo_key ?ms)"
    unfolding ms select_missing_keys using distinct_routes [OF kd] by (rule distinct_map_filter)
  have pre: "\<exists>r r'. get_route data a b c = Inr r \<and> fill_bins ?bs (map fst r) m r = Inr r'"
    if "(a, b, c, m) \<in> set ?ms" for a b c m
  proof -
    from that obtain r where "((a, b, c), r) \<in> set (routes data)" "m = missing_bins_of r"
      unfolding ms set_select_missing by blast
    then show ?thesis using routes_iff_get_route [OF kd] ok by blast
  qed
  from populate_combinations_ok [OF d pre] obtain data' where
    p: "populate_combinations ?bs ?ms data = Inr data'" and
    q: "\<And>a b c. get_route data' a b c =
        (case map_of (map (\<lambda>x. (combo_key x, snd (snd (snd x)))) ?ms) (a, b, c) of
           None \<Rightarrow> get_route data a b c
         | Some m \<Rightarrow> (case get_route data a b c of
                      Inl e \<Rightarrow> Inl e
                    | Inr r \<Rightarrow> fill_bins ?bs (map fst r) m r))"
    by blast
  have mo: "map_of (map (\<lambda>x. (combo_key x, snd (snd (snd x)))) ?ms) k =
    (case map_of (routes data) k of None \<Rightarrow> None
     | Some r \<Rightarrow> if missing_bins_of r \<noteq> [] then Some (missing_bins_of r) else None)" for k
    unfolding ms select_missing_keyed using distinct_routes [OF kd] by (rule map_of_filter_keyed)
  have "get_route data' a b c =
       (case get_route data a b c of
          Inl e \<Rightarrow> Inl e
        | Inr r \<Rightarrow> fill_bins ?bs (map fst r) (missing_bins_of r) r)" for a b c
    unfolding q [of a b c] mo get_route_routes [OF kd]
    by (simp split: option.splits)
  with p show ?thesis by (auto simp: populate_missing_bins_def)
qed

subsection \<open>The strategies on one route\<close>

lemma numbers_ok: "list_all is_num vs \<Longrightarrow> \<exists>xs. numbers vs = Inr xs"
proof (induction vs)
  case Nil
  then show ?case by simp
next
  case (Cons v vs)
  then obtain x where "v = Num x" by (cases v) auto
  with Cons show ?case by auto
qed

lemma numbers_err: "numbers vs = Inl e \<Longrightarrow> e = TypeError"
proof (induction vs)
  case Nil
  then show ?case by simp
next
  case (Cons v vs)
  then show ?case by (cases v) (auto split: sum.splits)
qed

lemma mean_ok: "vs \<noteq> [] \<Longrightarrow> list_all is_num vs \<Longrightarrow> \<exists>x. mean vs = Inr x"
  using numbers_ok [of vs] by (auto simp: mean_def)

lemma mean_err: "vs \<noteq> [] \<Longrightarrow> mean vs = Inl e \<Longrightarrow> e = TypeError"
  using numbers_err [of vs e] by (auto simp: mean_def split: sum.splits)

lemma stats_len_nonempty:
  "stats_len bs \<Longrightarrow> map_of bs n = Some m \<Longrightarrow> ml_p25 m \<noteq> [] \<Longrightarrow> ml_p50 m \<noteq> [] \<and> ml_p75 m \<noteq> []"
  unfolding stats_len_def by (metis length_0_conv)

lemma surrounding_weights:
  "surrounding_data bs ti ex = Inr items \<Longrightarrow> \<forall>i\<in>set items. 0 < weight i"
proof (induction ex arbitrary: items)
  case Nil
  then show ?case by simp
next
  case (Cons n ex)
  have pos: "0 < 1 / (of_int \<bar>k\<bar> + (1::rat))" for k :: int
    by (simp add: add_nonneg_pos)
  from Cons.prems Cons.IH show ?case
    by (auto simp: Let_def pos split: option.splits if_splits sum.splits)
qed

lemma surrounding_ok:
  assumes "stats_len bs" "stats_num bs"
  shows "\<exists>items. surrounding_data bs ti ex = Inr items"
proof (induction ex)
  case Nil
  then show ?case by simp
next
  case (Cons n ex)
  from Cons obtain items where it: "surrounding_data bs ti ex = Inr items" by blast
  show ?case
  proof (cases "map_of bs n")
    case None
    then show ?thesis using it by simp
  next
    case (Some m)
    show ?thesis
    proof (cases "ml_p25 m = [] \<or> get_bin_index n = - 1")
      case True
      then show ?thesis using it Some by (auto simp: Let_def)
    next
      case False
      then have ne: "ml_p25 m \<noteq> []" "ml_p50 m \<noteq> []" "ml_p75 m \<noteq> []"
        using stats_len_nonempty [OF assms(1) Some] by auto
      have num: "list_all is_num (ml_p25 m)" "list_all is_num (ml_p50 m)" "list_all is_num (ml_p75 m)"
        using assms(2) Some unfolding stats_num_def by blast+
      from mean_ok [OF ne(1) num(1)] mean_ok [OF ne(2) num(2)] mean_ok [OF ne(3) num(3)]
      obtain x y z where "mean (ml_p25 m) = Inr x" "mean (ml_p50 m) = Inr y" "mean (ml_p75 m) = Inr z"
        by blast
      then show ?thesis using it Some False by (simp add: Let_def)
    qed
  qed
qed

lemma surrounding_err:
  assumes "stats_len bs"
  shows "surrounding_data bs ti ex = Inl e \<Longrightarrow> e = TypeError"
proof (induction ex)
  case Nil
  then show ?case by simp
next
  case (Cons n ex)
  show ?case
  proof (cases "map_of bs n")
    case None
    then show ?thesis using Cons by simp
  next
    case (Some m)
    show ?thesis
    proof (cases "ml_p25 m = [] \<or> get_bin_index n = - 1")
      case True
      then show ?thesis using Cons Some by (auto simp: Let_def split: if_splits)
    next
      case False
      then have ne: "ml_p25 m \<noteq> []" "ml_p50 m \<noteq> []" "ml_p75 m \<noteq> []"
        using stats_len_nonempty [OF assms(1) Some] by auto
      from Cons.prems Some False Cons.IH mean_err [OF ne(1)] mean_err [OF ne(2)] mean_err [OF ne(3)]
      show ?thesis by (auto simp: Let_def split: sum.splits)
    qed
  qed
qed

lemma sum_weights_pos:
  "items \<noteq> [] \<Longrightarrow> \<forall>i\<in>set items. 0 < weight i \<Longrightarrow> 0 < sum_list (map weight items)"
proof (induction items)
  case Nil
  then show ?case by simp
next
  case (Cons i items)
  then show ?case by (cases items) (auto simp: add_pos_pos)
qed

lemma later_strategies_ok:
  assumes "stats_len bs" "stats_num bs" "\<forall>i\<in>set items. 0 < weight i"
  shows "\<exists>g. later_strategies bs t items = Inr g \<and> is_num (p50 g)"
proof (cases "items = []")
  case False
  with sum_weights_pos [OF False assms(3)] show ?thesis
    by (simp add: later_strategies_def Let_def)
next
  case True
  show ?thesis
  proof (cases "map_of bs t")
    case None
    with True show ?thesis by (simp add: later_strategies_def)
  next
    case (Some m)
    show ?thesis
    proof (cases "ml_p25 m = []")
      case True
      with \<open>items = []\<close> Some show ?thesis by (simp add: later_strategies_def)
    next
      case False
      then have ne: "ml_p25 m \<noteq> []" "ml_p50 m \<noteq> []" "ml_p75 m \<noteq> []"
        using stats_len_nonempty [OF assms(1) Some] by auto
      have num: "list_all is_num (ml_p25 m)" "list_all is_num (ml_p50 m)" "list_all is_num (ml_p75 m)"
        using assms(2) Some unfolding stats_num_def by blast+
      from mean_ok [OF ne(1) num(1)] mean_ok [OF ne(2) num(2)] mean_ok [OF ne(3) num(3)]
      obtain x y z where "mean (ml_p25 m) = Inr x" "mean (ml_p50 m) = Inr y" "mean (ml_p75 m) = Inr z"
        by blast
      then show ?thesis using \<open>items = []\<close> Some False by (simp add: later_strategies_def)
    qed
  qed
qed

lemma later_strategies_err:
  assumes "stats_len bs" "\<forall>i\<in>set items. 0 < weight i" "later_strategies bs t items = Inl e"
  shows "e = TypeError"
proof (cases "items = []")
  case False
  with sum_weights_pos [OF False assms(2)] assms(3) show ?thesis
    by (simp add: later_strategies_def Let_def)
next
  case True
  show ?thesis
  proof (cases "map_of bs t")
    case None
    with True assms(3) show ?thesis by (simp add: later_strategies_def)
  next
    case (Some m)
    show ?thesis
    proof (cases "ml_p25 m = []")
      case True
      with \<open>items = []\<close> Some assms(3) show ?thesis by (simp add: later_strategies_def)
    next
      case False
      then have ne: "ml_p25 m \<noteq> []" "ml_p50 m \<noteq> []" "ml_p75 m \<noteq> []"
        using stats_len_nonempty [OF assms(1) Some] by auto
      from assms(3) \<open>items = []\<close> Some False mean_err [OF ne(1)] mean_err [OF ne(2)] mean_err [OF ne(3)]
      show ?thesis by (auto simp: later_strategies_def split: sum.splits)
    qed
  qed
qed

lemma to_number_err: "to_number v = Inl e \<Longrightarrow> e = TypeError"
  by (cases v) auto


lemma is_num_scaled_bin [simp]: "is_num (p50 (scaled_bin x k s))"
  by (simp add: scaled_bin_def Let_def)

lemma interpolate_baseline:
  "map_of r ''0-50000'' = Some b0 \<Longrightarrow> p50 b0 = Num x \<Longrightarrow>
   interpolate_bin_data bs t ex (Some r) = Inr (scaled_bin x (base_multiplier t) ''baseline_scaling'')"
  by (simp add: interpolate_bin_data_def)


lemma interpolate_ok:
  assumes "stats_len bs" "stats_num bs"
    and "\<And>b. map_of r ''0-50000'' = Some b \<Longrightarrow> is_num (p50 b)"
  shows "\<exists>g. interpolate_bin_data bs t ex (Some r) = Inr g \<and> is_num (p50 g)"
proof (cases "map_of r ''0-50000''")
  case (Some b0)
  with assms(3) obtain x where "p50 b0 = Num x" by (cases "p50 b0") auto
  from interpolate_baseline [OF Some this] show ?thesis by simp
next
  case None
  show ?thesis
  proof (cases "case map_of bs ''0-50000'' of None \<Rightarrow> None
                | Some m \<Rightarrow> if ml_p50 m \<noteq> [] then Some (ml_p50 m) else None")
    case (Some vs)
    then obtain m where m: "map_of bs ''0-50000'' = Some m" "vs = ml_p50 m" "vs \<noteq> []"
      by (auto split: option.splits if_splits)
    then have "list_all is_num vs" using assms(2) unfolding stats_num_def by blast
    from mean_ok [OF m(3) this] obtain x where "mean vs = Inr x" by blast
    then show ?thesis using None Some by (simp add: interpolate_bin_data_def)
  next
    case N2: None
    from surrounding_ok [OF assms(1,2)] obtain items where
      it: "surrounding_data bs (get_bin_index t) ex = Inr items" by blast
    from later_strategies_ok [OF assms(1,2) surrounding_weights [OF it]]
    show ?thesis using None N2 it by (simp add: interpolate_bin_data_def)
  qed
qed

lemma interpolate_err:
  assumes "stats_len bs" "interpolate_bin_data bs t ex rd = Inl e"
  shows "e = TypeError"
proof (cases "case rd of None \<Rightarrow> None | Some r \<Rightarrow> map_of r ''0-50000''")
  case (Some b0)
  with assms(2) to_number_err [of "p50 b0" e] show ?thesis
    by (auto simp: interpolate_bin_data_def split: sum.splits)
next
  case None
  show ?thesis
  proof (cases "case map_of bs ''0-50000'' of None \<Rightarrow> None
                | Some m \<Rightarrow> if ml_p50 m \<noteq> [] then Some (ml_p50 m) else None")
    case (Some vs)
    then have "vs \<noteq> []" by (auto split: option.splits if_splits)
    from mean_err [OF this, of e] assms(2) None Some show ?thesis
      by (auto simp: interpolate_bin_data_def split: sum.splits)
  next
    case N2: None
    show ?thesis
    proof (cases "surrounding_data bs (get_bin_index t) ex")
      case (Inl e')
      with surrounding_err [OF assms(1) Inl] assms(2) None N2 show ?thesis
        by (simp add: interpolate_bin_data_def)
    next
      case (Inr items)
      with later_strategies_err [OF assms(1) surrounding_weights [OF Inr], of t e] assms(2) None N2
      show ?thesis by (simp add: interpolate_bin_data_def)
    qed
  qed
qed

lemma fill_bins_ok:
  assumes "stats_len bs" "stats_num bs"
  shows "(\<And>b. map_of r ''0-50000'' = Some b \<Longrightarrow> is_num (p50 b)) \<Longrightarrow>
         \<exists>r'. fill_bins bs ex ms r = Inr r'"
proof (induction ms arbitrary: r)
  case Nil
  then show ?case by simp
next
  case (Cons n ms)
  from interpolate_ok [OF assms, where r = r and t = n and ex = ex] Cons.prems obtain g where
    g: "interpolate_bin_data bs n ex (Some r) = Inr g" "is_num (p50 g)" by blast
  have "is_num (p50 b)" if "map_of (AList.update n g r) ''0-50000'' = Some b" for b
    using that g(2) Cons.prems by (auto simp: AList.update_conv' split: if_splits)
  from Cons.IH [OF this] show ?case using g(1) by simp
qed

lemma fill_bins_err:
  assumes "stats_len bs"
  shows "fill_bins bs ex ms r = Inl e \<Longrightarrow> e = TypeError"
proof (induction ms arbitrary: r)
  case Nil
  then show ?case by simp
next
  case (Cons n ms)
  then show ?case using interpolate_err [OF assms]
    by (auto split: sum.splits)
qed

lemma fill_bins_keys:
  "fill_bins bs ex ms r = Inr r' \<Longrightarrow> fst ` set r' = fst ` set r \<union> set ms"
proof (induction ms arbitrary: r)
  case Nil
  then show ?case by simp
next
  case (Cons n ms)
  then show ?case by (auto simp: AList.dom_update split: sum.splits)
qed

lemma fill_bins_unchanged:
  "fill_bins bs ex ms r = Inr r' \<Longrightarrow> n \<notin> set ms \<Longrightarrow> map_of r' n = map_of r n"
proof (induction ms arbitrary: r)
  case Nil
  then show ?case by simp
next
  case (Cons n' ms)
  then show ?case by (auto simp: AList.update_conv' split: sum.splits)
qed

lemma fill_bins_baseline:
  "map_of r ''0-50000'' = Some b0 \<Longrightarrow> p50 b0 = Num x \<Longrightarrow> ''0-50000'' \<notin> set ms \<Longrightarrow>
   \<exists>r'. fill_bins bs ex ms r = Inr r' \<and>
     (\<forall>n\<in>set ms. map_of r' n = Some (scaled_bin x (base_multiplier n) ''baseline_scaling''))"
proof (induction ms arbitrary: r)
  case Nil
  then show ?case by simp
next
  case (Cons n ms)
  let ?g = "scaled_bin x (base_multiplier n) ''baseline_scaling''"
  have i: "interpolate_bin_data bs n ex (Some r) = Inr ?g"
    using interpolate_baseline [OF Cons.prems(1,2)] .
  have b: "map_of (AList.update n ?g r) ''0-50000'' = Some b0"
    using Cons.prems(1,3) by (simp add: AList.update_conv')
  from Cons.IH [OF b Cons.prems(2)] Cons.prems(3) obtain r' where
    f: "fill_bins bs ex ms (AList.update n ?g r) = Inr r'" and
    a: "\<forall>k\<in>set ms. map_of r' k = Some (scaled_bin x (base_multiplier k) ''baseline_scaling'')"
    by auto
  have "map_of r' n = Some ?g"
  proof (cases "n \<in> set ms")
    case True
    with a show ?thesis by blast
  next
    case False
    from fill_bins_unchanged [OF f False] show ?thesis by (simp add: AList.update_conv')
  qed
  with f a i show ?case by simp
qed


subsection \<open>The statistics table\<close>

lemma fold_invariant:
  "P s \<Longrightarrow> (\<And>x s. x \<in> set xs \<Longrightarrow> P s \<Longrightarrow> P (f x s)) \<Longrightarrow> P (fold f xs s)"
  by (induction xs arbitrary: s) auto

lemma stats_len_append: "stats_len bs \<Longrightarrow> stats_len (append_stats n b bs)"
  unfolding stats_len_def append_stats_def Let_def
  by (auto simp: AList.update_conv' split: option.splits)

lemma stats_num_append: "stats_num bs \<Longrightarrow> numeric_bin b \<Longrightarrow> stats_num (append_stats n b bs)"
  unfolding stats_num_def append_stats_def Let_def numeric_bin_def
  by (auto simp: AList.update_conv' split: option.splits)

lemma collect_invariant:
  assumes init: "P []"
    and step: "\<And>a dests b ths c r n bin s.
      (a, dests) \<in> set data \<Longrightarrow> (b, ths) \<in> set dests \<Longrightarrow> (c, r) \<in> set ths \<Longrightarrow>
      (n, bin) \<in> set r \<Longrightarrow> P s \<Longrightarrow> P (append_stats n bin s)"
  shows "P (collect_bin_statistics data)"
  unfolding collect_bin_statistics_def
proof (rule fold_invariant [where P = P])
  show "P []" by (rule init)
next
  fix x s
  assume xin: "x \<in> set data" and Ps: "P s"
  obtain a dests where x: "x = (a, dests)" by (cases x)
  show "P ((case x of (origin_chain_id, destinations) \<Rightarrow>
           fold (\<lambda>(destination_chain_id, tickerhashes).
             fold (\<lambda>(tickerhash, bins).
               fold (\<lambda>(bin_name, bin_data). append_stats bin_name bin_data) bins)
             tickerhashes)
           destinations) s)"
    unfolding x prod.case
  proof (rule fold_invariant [where P = P])
    show "P s" by (rule Ps)
  next
    fix y s
    assume yin: "y \<in> set dests" and Ps: "P s"
    obtain b ths where y: "y = (b, ths)" by (cases y)
    show "P ((case y of (destination_chain_id, tickerhashes) \<Rightarrow>
             fold (\<lambda>(tickerhash, bins).
               fold (\<lambda>(bin_name, bin_data). append_stats bin_name bin_data) bins)
             tickerhashes) s)"
      unfolding y prod.case
    proof (rule fold_invariant [where P = P])
      show "P s" by (rule Ps)
    next
      fix z s
      assume zin: "z \<in> set ths" and Ps: "P s"
      obtain c r where z: "z = (c, r)" by (cases z)
      show "P ((case z of (tickerhash, bins) \<Rightarrow>
               fold (\<lambda>(bin_name, bin_data). append_stats bin_name bin_data) bins) s)"
        unfolding z prod.case
      proof (rule fold_invariant [where P = P])
        show "P s" by (rule Ps)
      next
        fix w s
        assume win: "w \<in> set r" and Ps: "P s"
        obtain n bin where w: "w = (n, bin)" by (cases w)
        show "P ((case w of (bin_name, bin_data) \<Rightarrow> append_stats bin_name bin_data) s)"
          unfolding w prod.case
          using xin yin zin win Ps unfolding x y z w by (rule step)
      qed
    qed
  qed
qed

lemma stats_len_collect: "stats_len (collect_bin_statistics data)"
proof (rule collect_invariant [where P = stats_len])
  show "stats_len []" by (simp add: stats_len_def)
next
  fix n bin s
  assume "stats_len s"
  then show "stats_len (append_stats n bin s)" by (rule stats_len_append)
qed

lemma all_numericD:
  assumes "all_numeric data" "(a, dests) \<in> set data" "(b, ths) \<in> set dests" "(c, r) \<in> set ths"
    "(n, bin) \<in> set r"
  shows "numeric_bin bin"
proof -
  from assms(1,2) have "list_all (\<lambda>(dest, tickerhashes).
         list_all (\<lambda>(th, route).
           list_all (\<lambda>(bin_name, bin_data). numeric_bin bin_data) route)
         tickerhashes) dests"
    unfolding all_numeric_def list_all_iff by fast
  with assms(3) have "list_all (\<lambda>(th, route).
           list_all (\<lambda>(bin_name, bin_data). numeric_bin bin_data) route) ths"
    unfolding list_all_iff by fast
  with assms(4) have "list_all (\<lambda>(bin_name, bin_data). numeric_bin bin_data) r"
    unfolding list_all_iff by fast
  with assms(5) show ?thesis
    unfolding list_all_iff by fast
qed

lemma stats_num_collect:
  assumes "all_numeric data"
  shows "stats_num (collect_bin_statistics data)"
proof (rule collect_invariant [where P = stats_num])
  show "stats_num []" by (simp add: stats_num_def)
next
  fix a dests b ths c r n bin s
  assume "(a, dests) \<in> set data" "(b, ths) \<in> set dests" "(c, r) \<in> set ths" "(n, bin) \<in> set r"
    and s: "stats_num s"
  then have "numeric_bin bin" using all_numericD [OF assms] by blast
  with s show "stats_num (append_stats n bin s)" by (rule stats_num_append)
qed

lemma get_route_mem:
  "get_route data a b c = Inr r \<Longrightarrow>
   \<exists>dests ths. (a, dests) \<in> set data \<and> (b, ths) \<in> set dests \<and> (c, r) \<in> set ths"
  unfolding get_route_def by (auto split: option.splits dest!: map_of_SomeD)

lemma route_numeric:
  assumes "all_numeric data" "get_route data a b c = Inr r" "map_of r n = Some bin"
  shows "is_num (p50 bin)"
proof -
  from get_route_mem [OF assms(2)] obtain dests ths where
    "(a, dests) \<in> set data" "(b, ths) \<in> set dests" "(c, r) \<in> set ths" by blast
  moreover have "(n, bin) \<in> set r" using assms(3) by (rule map_of_SomeD)
  ultimately have "numeric_bin bin" using all_numericD [OF assms(1)] by blast
  then show ?thesis by (simp add: numeric_bin_def)
qed

section \<open>Properties of the gap filler\<close>

text \<open>
  On a well-formed dataset the gap filler returns, and every route of the result is the
  route of the input filled by \<open>fill_bins\<close>; the result has the routes of the input, each
  with all eight canonical bins.
\<close>

lemma gap_fill_total:
  assumes "well_formed data"
  shows "\<exists>data'. populate_missing_bins data (find_missing_bins data) = Inr data' \<and>
    (\<forall>a b c. get_route data' a b c =
       (case get_route data a b c of
          Inl e \<Rightarrow> Inl e
        | Inr r \<Rightarrow> fill_bins (collect_bin_statistics data) (map fst r) (missing_bins_of r) r))"
proof (rule populate_success)
  show "keys_distinct data" using assms by (simp add: well_formed_def)
next
  fix a b c r
  assume g: "get_route data a b c = Inr r"
  have num: "all_numeric data" using assms by (simp add: well_formed_def)
  show "\<exists>r'. fill_bins (collect_bin_statistics data) (map fst r) (missing_bins_of r) r = Inr r'"
    by (rule fill_bins_ok [OF stats_len_collect stats_num_collect [OF num]])
       (rule route_numeric [OF num g])
qed

lemma gap_fill_complete:
  assumes "well_formed data"
  shows "\<exists>data'. populate_missing_bins data (find_missing_bins data) = Inr data' \<and>
    (\<forall>a b c. (get_route data' a b c = Inl KeyError \<longleftrightarrow> get_route data a b c = Inl KeyError) \<and>
       (\<forall>r'. get_route data' a b c = Inr r' \<longrightarrow> set EXPECTED_BINS \<subseteq> fst ` set r'))"
proof -
  from gap_fill_total [OF assms] obtain data' where
    p: "populate_missing_bins data (find_missing_bins data) = Inr data'" and
    q: "\<And>a b c. get_route data' a b c =
       (case get_route data a b c of
          Inl e \<Rightarrow> Inl e
        | Inr r \<Rightarrow> fill_bins (collect_bin_statistics data) (map fst r) (missing_bins_of r) r)"
    by blast
  have e: "get_route d a b c = Inl x \<Longrightarrow> x = KeyError" for d a b c x
    by (auto simp: get_route_def split: option.splits)
  have "(get_route data' a b c = Inl KeyError \<longleftrightarrow> get_route data a b c = Inl KeyError) \<and>
       (\<forall>r'. get_route data' a b c = Inr r' \<longrightarrow> set EXPECTED_BINS \<subseteq> fst ` set r')" for a b c
  proof (cases "get_route data a b c")
    case (Inl x)
    then show ?thesis using q [of a b c] e [OF Inl] by simp
  next
    case (Inr r)
    have num: "all_numeric data" using assms by (simp add: well_formed_def)
    from fill_bins_ok [OF stats_len_collect stats_num_collect [OF num], of r "map fst r" "missing_bins_of r"]
      route_numeric [OF num Inr]
    obtain r' where f: "fill_bins (collect_bin_statistics data) (map fst r) (missing_bins_of r) r = Inr r'"
      by blast
    from fill_bins_keys [OF f] have "set EXPECTED_BINS \<subseteq> fst ` set r'"
      by (auto simp: missing_bins_of_def)
    then show ?thesis using q [of a b c] Inr f by simp
  qed
  with p show ?thesis by blast
qed

lemma find_missing_bins_full: "fully_populated data \<Longrightarrow> find_missing_bins data = []"
  unfolding find_missing_bins_def fully_populated_def Let_def list_all_iff
  by (auto simp: filter_empty_conv) fast


lemma baseline_route_filled:
  assumes wf: "well_formed data"
    and g: "get_route data a b c = Inr r"
    and b0: "map_of r ''0-50000'' = Some b0"
    and m: "p50 b0 = Num x"
    and tgt: "target \<in> set EXPECTED_BINS" "map_of r target = None"
  shows "\<exists>data'. populate_missing_bins data (find_missing_bins data) = Inr data' \<and>
     bin_at data' a b c target = Some (scaled_bin x (base_multiplier target) ''baseline_scaling'')"
proof -
  from gap_fill_total [OF wf] obtain data' where
    p: "populate_missing_bins data (find_missing_bins data) = Inr data'" and
    q: "\<And>a b c. get_route data' a b c =
       (case get_route data a b c of
          Inl e \<Rightarrow> Inl e
        | Inr r \<Rightarrow> fill_bins (collect_bin_statistics data) (map fst r) (missing_bins_of r) r)"
    by blast
  have "''0-50000'' \<in> fst ` set r" using b0 by (metis map_of_eq_None_iff option.distinct(1))
  then have nb: "''0-50000'' \<notin> set (missing_bins_of r)" by (simp add: missing_bins_of_def)
  have "target \<notin> fst ` set r" using tgt(2) by (simp add: map_of_eq_None_iff)
  then have tm: "target \<in> set (missing_bins_of r)" using tgt(1) by (simp add: missing_bins_of_def)
  from fill_bins_baseline [OF b0 m nb] obtain r' where
    f: "fill_bins (collect_bin_statistics data) (map fst r) (missing_bins_of r) r = Inr r'" and
    v: "\<forall>n\<in>set (missing_bins_of r).
          map_of r' n = Some (scaled_bin x (base_multiplier n) ''baseline_scaling'')"
    by blast
  have "bin_at data' a b c target = Some (scaled_bin x (base_multiplier target) ''baseline_scaling'')"
    using q [of a b c] g f v tm by (simp add: bin_at_def)
  with p show ?thesis by blast
qed

text \<open>
  The only failure of the gap filler on a dataset with distinct keys is TypeError, and it
  needs a stored percentile that is not a number.
\<close>

lemma gap_fill_error:
  assumes "keys_distinct data"
    and "populate_missing_bins data (find_missing_bins data) = Inl e"
  shows "e = TypeError \<and> \<not> all_numeric data"
proof
  let ?bs = "collect_bin_statistics data"
  let ?ms = "find_missing_bins data"
  have d: "distinct (map combo_key ?ms)" by (rule distinct_missing_combinations [OF assms(1)])
  have pre: "\<forall>a b c m. (a, b, c, m) \<in> set ?ms \<longrightarrow> (\<exists>r. get_route data a b c = Inr r)"
    using missing_combination_route [OF assms(1)] by blast
  have "populate_combinations ?bs ?ms data = Inl e"
    using assms(2) by (simp add: populate_missing_bins_def)
  from populate_combinations_fail [OF d pre this] obtain r m where
    "fill_bins ?bs (map fst r) m r = Inl e" by blast
  then show "e = TypeError" by (rule fill_bins_err [OF stats_len_collect])
next
  show "\<not> all_numeric data"
  proof
    assume "all_numeric data"
    with assms(1) have "well_formed data" by (simp add: well_formed_def)
    from gap_fill_total [OF this] assms(2) show False by auto
  qed
qed

text \<open>
  C7 (idempotence): on a dataset in which every route already holds all eight canonical
  buckets, the gap filler returns a dataset equal to its input.
\<close>

theorem C7_idempotent_on_full:
  "fully_populated data \<Longrightarrow> populate_missing_bins data (find_missing_bins data) = Inr data"
  by (simp add: find_missing_bins_full populate_missing_bins_def)

theorem C7_idempotent_on_full_witness:
  "fully_populated example_full \<and>
   populate_missing_bins example_full (find_missing_bins example_full) = Inr example_full"
proof -
  have 1: "fully_populated example_full" by code_simp
  from C7_idempotent_on_full [OF 1] show ?thesis using 1 by simp
qed



text \<open>
  C6 (strategy precedence): in a well-formed dataset, for a route that has a \<open>0-50000\<close>
  bin and lacks the \<open>50000-100000\<close> bin, the gap filler fills \<open>50000-100000\<close> with
  method \<open>baseline_scaling\<close>, hence with none of the later strategies.
\<close>

theorem C6_baseline_scaling_precedence:
  assumes "well_formed data"
    and "get_route data orig dest th = Inr route"
    and "map_of route ''0-50000'' = Some baseline"
    and "map_of route ''50000-100000'' = None"
  shows "\<exists>data' g. populate_missing_bins data (find_missing_bins data) = Inr data' \<and>
     bin_at data' orig dest th ''50000-100000'' = Some g \<and>
     method_name g = Some ''baseline_scaling''"
proof -
  have "all_numeric data" using assms(1) by (simp add: well_formed_def)
  from route_numeric [OF this assms(2,3)] obtain x where x: "p50 baseline = Num x"
    by (cases "p50 baseline") auto
  have t: "''50000-100000'' \<in> set EXPECTED_BINS" by (simp add: EXPECTED_BINS_def)
  from baseline_route_filled [OF assms(1-3) x t assms(4)] show ?thesis
    by (auto simp: scaled_bin_def Let_def)
qed

theorem C6_baseline_scaling_precedence_witness:
  "well_formed example_baseline \<and>
   get_route example_baseline ''1'' ''10'' ''0xabc'' = Inr [(''0-50000'', real_bin 8 10 14 5)] \<and>
   (\<exists>data' g. populate_missing_bins example_baseline (find_missing_bins example_baseline) = Inr data' \<and>
      bin_at data' ''1'' ''10'' ''0xabc'' ''50000-100000'' = Some g \<and>
      method_name g = Some ''baseline_scaling'')"
proof -
  have 1: "well_formed example_baseline" by code_simp
  have 2: "get_route example_baseline ''1'' ''10'' ''0xabc'' = Inr [(''0-50000'', real_bin 8 10 14 5)]"
    by code_simp
  have 3: "map_of [(''0-50000'', real_bin 8 10 14 5)] ''0-50000'' = Some (real_bin 8 10 14 5)"
    by simp
  have 4: "map_of [(''0-50000'', real_bin 8 10 14 5)] ''50000-100000'' = None" by simp
  from C6_baseline_scaling_precedence [OF 1 2 3 4] show ?thesis using 1 2 by simp
qed




text \<open>
  C1 says that the strategies read only the bins a route had before the run, so that a
  route without a \<open>0-50000\<close> bin is never filled by \<open>baseline_scaling\<close>. The code reads
  \<open>route_data\<close> from the dataset it is writing to. On the route below, which holds only
  the real bin \<open>50000-100000\<close>, the missing \<open>0-50000\<close> is generated first (by
  \<open>weighted_interpolation\<close>, median 12), and the six buckets after it are then filled by
  \<open>baseline_scaling\<close> from that generated bin (\<open>100000-300000\<close>: 12 * 1.5 = 18).
\<close>

theorem C1_reads_generated_baseline:
  "bin_at example_sparse ''1'' ''10'' ''0xabc'' ''0-50000'' = None \<and>
   populate_missing_bins example_sparse (find_missing_bins example_sparse) =
     Inr [(''1'', [(''10'', [(''0xabc'',
       [(''50000-100000'', real_bin 8 12 20 5),
        (''0-50000'', generated_bin 8 12 20 ''weighted_interpolation''),
        (''100000-300000'', generated_bin (63 / 5) 18 (117 / 5) ''baseline_scaling''),
        (''300000-400000'', generated_bin (378 / 25) (108 / 5) (702 / 25) ''baseline_scaling''),
        (''400000-500000'', generated_bin (84 / 5) 24 (156 / 5) ''baseline_scaling''),
        (''500000-700000'', generated_bin 21 30 39 ''baseline_scaling''),
        (''700000-1000000'', generated_bin (126 / 5) 36 (234 / 5) ''baseline_scaling''),
        (''1000000+'', generated_bin (168 / 5) 48 (312 / 5) ''baseline_scaling'')])])])]"
  by code_simp

text \<open>
  The order of a route's missing buckets changes the values: with \<open>0-50000\<close> first,
  \<open>50000-100000\<close> is scaled from the generated default; with \<open>50000-100000\<close> first, it
  is the default itself.
\<close>

lemma populate_order_dependence:
  "populate_missing_bins example_empty_route [(''1'', ''10'', ''0xabc'', [''0-50000'', ''50000-100000''])] =
     Inr [(''1'', [(''10'', [(''0xabc'',
       [(''0-50000'', generated_bin 10 15 25 ''default_fallback''),
        (''50000-100000'', generated_bin (63 / 5) 18 (117 / 5) ''baseline_scaling'')])])])] \<and>
   populate_missing_bins example_empty_route [(''1'', ''10'', ''0xabc'', [''50000-100000'', ''0-50000''])] =
     Inr [(''1'', [(''10'', [(''0xabc'',
       [(''50000-100000'', generated_bin 10 15 25 ''default_fallback''),
        (''0-50000'', generated_bin 10 15 25 ''default_fallback'')])])])]"
  by code_simp

text \<open>
  C2 says that on every well-formed dataset the gap filler succeeds and completes every
  route (which \<open>gap_fill_complete\<close> proves), and that a missing bucket of a route without
  a \<open>0-50000\<close> bin, under empty global statistics, receives the default values 10, 15,
  25. On the dataset whose only route has no bin, the statistics table is empty and only
  \<open>0-50000\<close> receives the defaults; the seven other buckets are scaled from that
  generated bin (\<open>50000-100000\<close>: 12.6, 18, 23.4, method \<open>baseline_scaling\<close>).
\<close>

theorem C2_default_only_for_first_bucket:
  "well_formed example_empty_route \<and>
   collect_bin_statistics example_empty_route = [] \<and>
   populate_missing_bins example_empty_route (find_missing_bins example_empty_route) =
     Inr [(''1'', [(''10'', [(''0xabc'',
       [(''0-50000'', generated_bin 10 15 25 ''default_fallback''),
        (''50000-100000'', generated_bin (63 / 5) 18 (117 / 5) ''baseline_scaling''),
        (''100000-300000'', generated_bin (63 / 4) (45 / 2) (117 / 4) ''baseline_scaling''),
        (''300000-400000'', generated_bin (189 / 10) 27 (351 / 10) ''baseline_scaling''),
        (''400000-500000'', generated_bin 21 30 39 ''baseline_scaling''),
        (''500000-700000'', generated_bin (105 / 4) (75 / 2) (195 / 4) ''baseline_scaling''),
        (''700000-1000000'', generated_bin (63 / 2) 45 (117 / 2) ''baseline_scaling''),
        (''1000000+'', generated_bin 42 60 78 ''baseline_scaling'')])])])]"
  by code_simp

end
